theory Spec2Isabelle
  imports Complex_Main "HOL-Library.AList" "HOL-Library.Product_Lexorder" "HOL-Library.Log_Nat"
begin

section \<open>Data model\<close>

text \<open>
  The notebook \<^verbatim>\<open>Full_Retention_Model_Walkthrough.ipynb\<close> is a sequence of cells over one
  pandas table \<^verbatim>\<open>df\<close>. A float64 cell is modelled as a real number or one of the three special
  values of the float type. The min-max scaling of the risk score is computed in float64
  arithmetic, every operation rounded to the nearest float64; the other cells compute in
  exact arithmetic. A column is either a float64 column or a categorical column (the result of
  \<^verbatim>\<open>pd.cut\<close>): its ordered categories and one code per row, \<open>None\<close> for a missing
  category. A table is the ordered list of its named columns, all of one length; a matrix
  (\<^verbatim>\<open>ndarray\<close>) is the list of its columns.
\<close>

datatype fval = Fin real | PInf | NInf | NaN

datatype column = Float64 "fval list" | Category "string list" "nat option list"

type_synonym dataframe = "(string \<times> column) list"

type_synonym matrix = "fval list list"

datatype error = KeyError "string list" | TypeError | ValueError string | IndexError

definition bind_err :: "error + 'a \<Rightarrow> ('a \<Rightarrow> error + 'b) \<Rightarrow> error + 'b" where
  "bind_err m f = (case m of Inl e \<Rightarrow> Inl e | Inr x \<Rightarrow> f x)"

subsection \<open>Float arithmetic with the special values\<close>

fun fmul :: "fval \<Rightarrow> fval \<Rightarrow> fval" where
  "fmul (Fin a) (Fin b) = Fin (a * b)"
| "fmul NaN _ = NaN"
| "fmul _ NaN = NaN"
| "fmul (Fin a) PInf = (if a = 0 then NaN else if 0 < a then PInf else NInf)"
| "fmul (Fin a) NInf = (if a = 0 then NaN else if 0 < a then NInf else PInf)"
| "fmul PInf (Fin b) = (if b = 0 then NaN else if 0 < b then PInf else NInf)"
| "fmul NInf (Fin b) = (if b = 0 then NaN else if 0 < b then NInf else PInf)"
| "fmul PInf PInf = PInf"
| "fmul NInf NInf = PInf"
| "fmul PInf NInf = NInf"
| "fmul NInf PInf = NInf"

fun fadd :: "fval \<Rightarrow> fval \<Rightarrow> fval" where
  "fadd (Fin a) (Fin b) = Fin (a + b)"
| "fadd NaN _ = NaN"
| "fadd _ NaN = NaN"
| "fadd PInf NInf = NaN"
| "fadd NInf PInf = NaN"
| "fadd PInf _ = PInf"
| "fadd NInf _ = NInf"
| "fadd _ PInf = PInf"
| "fadd _ NInf = NInf"

text \<open>
  Division of float64 arrays does not raise: a zero denominator yields an infinity, or NaN
  for \<open>0 / 0\<close>.
\<close>

fun fdiv :: "fval \<Rightarrow> fval \<Rightarrow> fval" where
  "fdiv (Fin a) (Fin b) =
     (if b = 0 then (if a = 0 then NaN else if 0 < a then PInf else NInf) else Fin (a / b))"
| "fdiv NaN _ = NaN"
| "fdiv _ NaN = NaN"
| "fdiv (Fin a) PInf = Fin 0"
| "fdiv (Fin a) NInf = Fin 0"
| "fdiv PInf (Fin b) = (if 0 \<le> b then PInf else NInf)"
| "fdiv NInf (Fin b) = (if 0 \<le> b then NInf else PInf)"
| "fdiv PInf PInf = NaN"
| "fdiv PInf NInf = NaN"
| "fdiv NInf PInf = NaN"
| "fdiv NInf NInf = NaN"

fun fneg :: "fval \<Rightarrow> fval" where
  "fneg (Fin a) = Fin (- a)"
| "fneg PInf = NInf"
| "fneg NInf = PInf"
| "fneg NaN = NaN"

definition fsub :: "fval \<Rightarrow> fval \<Rightarrow> fval" where
  "fsub a b = fadd a (fneg b)"

text \<open>Comparison of floats: every comparison with NaN is false.\<close>

fun fless :: "fval \<Rightarrow> fval \<Rightarrow> bool" where
  "fless (Fin a) (Fin b) = (a < b)"
| "fless NInf (Fin b) = True"
| "fless NInf PInf = True"
| "fless (Fin a) PInf = True"
| "fless _ _ = False"

subsection \<open>Table access\<close>

fun col_length :: "column \<Rightarrow> nat" where
  "col_length (Float64 xs) = length xs"
| "col_length (Category cats codes) = length codes"

text \<open>The number of rows of a table, and the table invariant.\<close>

definition nrows :: "dataframe \<Rightarrow> nat" where
  "nrows df = (case df of [] \<Rightarrow> 0 | (name, c) # rest \<Rightarrow> col_length c)"


text \<open>\<^verbatim>\<open>df.columns\<close> and the test \<^verbatim>\<open>name in df.columns\<close>.\<close>

definition columns :: "dataframe \<Rightarrow> string list" where
  "columns df = map fst df"

definition has_column :: "dataframe \<Rightarrow> string \<Rightarrow> bool" where
  "has_column df c = (c \<in> set (columns df))"

text \<open>\<^verbatim>\<open>df[name]\<close> raises \<^verbatim>\<open>KeyError\<close> when the column is absent.\<close>

definition getitem :: "dataframe \<Rightarrow> string \<Rightarrow> error + column" where
  "getitem df c = (case map_of df c of None \<Rightarrow> Inl (KeyError [c]) | Some v \<Rightarrow> Inr v)"

text \<open>
  \<^verbatim>\<open>df[name] = series\<close>, for a series on the index of \<^verbatim>\<open>df\<close>: an existing column is
  overwritten in place, a new one is appended as the last column.
\<close>

definition setitem :: "dataframe \<Rightarrow> string \<Rightarrow> column \<Rightarrow> dataframe" where
  "setitem df c v = AList.update c v df"

text \<open>Element-wise arithmetic of two series; a categorical operand raises \<^verbatim>\<open>TypeError\<close>.\<close>

fun mul_series :: "column \<Rightarrow> column \<Rightarrow> error + column" where
  "mul_series (Float64 xs) (Float64 ys) = Inr (Float64 (map2 fmul xs ys))"
| "mul_series _ _ = Inl TypeError"

fun div_series :: "column \<Rightarrow> column \<Rightarrow> error + column" where
  "div_series (Float64 xs) (Float64 ys) = Inr (Float64 (map2 fdiv xs ys))"
| "div_series _ _ = Inl TypeError"

fun add_scalar :: "column \<Rightarrow> real \<Rightarrow> error + column" where
  "add_scalar (Float64 xs) k = Inr (Float64 (map (\<lambda>x. fadd x (Fin k)) xs))"
| "add_scalar _ _ = Inl TypeError"

section \<open>Cell 2: feature engineering\<close>

text \<open>
  Each of the three statements of the cell has the shape
  \<^verbatim>\<open>if c1 in df.columns and c2 in df.columns: df[out] = f(df[c1], df[c2])\<close>.
\<close>

definition guarded_assign ::
  "string \<Rightarrow> string \<Rightarrow> string \<Rightarrow> (column \<Rightarrow> column \<Rightarrow> error + column) \<Rightarrow> dataframe
     \<Rightarrow> error + dataframe" where
  "guarded_assign c1 c2 out f df =
     (if has_column df c1 \<and> has_column df c2 then
        bind_err (getitem df c1) (\<lambda>a.
        bind_err (getitem df c2) (\<lambda>b.
        bind_err (f a b) (\<lambda>v. Inr (setitem df out v))))
      else Inr df)"

text \<open>
  \<^verbatim>\<open>df["YearsSinceLastPromotion"] / (df["YearsAtCompany"] + 1)\<close>: the denominator is the
  series \<^verbatim>\<open>df["YearsAtCompany"] + 1\<close>.
\<close>

definition promotion_denominator :: "column \<Rightarrow> error + column" where
  "promotion_denominator b = add_scalar b 1"

definition promotion_rate :: "column \<Rightarrow> column \<Rightarrow> error + column" where
  "promotion_rate a b = bind_err (promotion_denominator b) (\<lambda>d. div_series a d)"

definition engagement_step :: "dataframe \<Rightarrow> error + dataframe" where
  "engagement_step =
     guarded_assign ''JobSatisfaction'' ''WorkLifeBalance'' ''Engagement_Index'' mul_series"

definition promotion_step :: "dataframe \<Rightarrow> error + dataframe" where
  "promotion_step =
     guarded_assign ''YearsSinceLastPromotion'' ''YearsAtCompany'' ''Promotion_Rate''
       promotion_rate"

definition overtime_step :: "dataframe \<Rightarrow> error + dataframe" where
  "overtime_step =
     guarded_assign ''Doing_Overtime'' ''Laboratory_Technician'' ''Overtime_SensitiveRole''
       mul_series"

definition engineer_features :: "dataframe \<Rightarrow> error + dataframe" where
  "engineer_features df =
     bind_err (engagement_step df) (\<lambda>df1.
     bind_err (promotion_step df1) (\<lambda>df2. overtime_step df2))"

section \<open>Library operations used by the later cells\<close>

subsection \<open>Dropping columns\<close>

text \<open>
  \<^verbatim>\<open>df.drop(columns=labels, errors=...)\<close> returns a new table. With \<^verbatim>\<open>errors='raise'\<close> (the
  default) a label that is not a column raises \<^verbatim>\<open>KeyError\<close>; with \<^verbatim>\<open>errors='ignore'\<close> only
  the existing labels are dropped.
\<close>

datatype errors_mode = Raise | Ignore

definition drop_columns :: "dataframe \<Rightarrow> string list \<Rightarrow> errors_mode \<Rightarrow> error + dataframe" where
  "drop_columns df labels errors =
     (let missing = filter (\<lambda>c. \<not> has_column df c) labels
      in if errors = Raise \<and> missing \<noteq> [] then Inl (KeyError missing)
         else Inr (filter (\<lambda>(name, _). name \<notin> set labels) df))"

subsection \<open>Arrays\<close>

definition mat_rows :: "matrix \<Rightarrow> nat" where
  "mat_rows M = (case M of [] \<Rightarrow> 0 | c # rest \<Rightarrow> length c)"

fun sequence_err :: "(error + 'a) list \<Rightarrow> error + 'a list" where
  "sequence_err [] = Inr []"
| "sequence_err (m # ms) =
     bind_err m (\<lambda>x. bind_err (sequence_err ms) (\<lambda>xs. Inr (x # xs)))"

text \<open>Conversion of a table to a float array fails on a categorical column.\<close>

fun column_values :: "column \<Rightarrow> error + fval list" where
  "column_values (Float64 xs) = Inr xs"
| "column_values (Category cats codes) = Inl (ValueError ''could not convert string to float'')"

definition to_array :: "dataframe \<Rightarrow> error + matrix" where
  "to_array df = sequence_err (map (\<lambda>(name, c). column_values c) df)"

text \<open>
  Input validation of the scalers: NaN is accepted, an infinity is rejected, and at least
  one sample and one feature are required.
\<close>

definition has_inf :: "fval list \<Rightarrow> bool" where
  "has_inf xs = (PInf \<in> set xs \<or> NInf \<in> set xs)"

definition check_array :: "matrix \<Rightarrow> error + matrix" where
  "check_array M =
     (if list_ex has_inf M then Inl (ValueError ''Input contains infinity'')
      else if M = [] then Inl (ValueError ''Found array with 0 feature(s)'')
      else if mat_rows M = 0 then Inl (ValueError ''Found array with 0 sample(s)'')
      else Inr M)"

subsection \<open>\<^verbatim>\<open>StandardScaler\<close>\<close>

text \<open>
  The fitted state of the scaler is one mean and one scale per column. NaN entries are
  disregarded in \<^verbatim>\<open>fit\<close> and kept by \<^verbatim>\<open>transform\<close>; a column of zero variance gets the
  scale \<open>1\<close>.
\<close>

record scaler =
  scaler_mean :: "fval list"
  scaler_scale :: "fval list"

definition finite_values :: "fval list \<Rightarrow> real list" where
  "finite_values xs = concat (map (\<lambda>v. case v of Fin r \<Rightarrow> [r] | _ \<Rightarrow> []) xs)"

definition column_mean :: "fval list \<Rightarrow> fval" where
  "column_mean col =
     (let xs = finite_values col
      in if xs = [] then NaN else Fin (sum_list xs / real (length xs)))"

definition column_scale :: "fval list \<Rightarrow> fval" where
  "column_scale col =
     (let xs = finite_values col
      in if xs = [] then NaN
         else let m = sum_list xs / real (length xs);
                  var = sum_list (map (\<lambda>x. (x - m)\<^sup>2) xs) / real (length xs);
                  s = sqrt var
              in Fin (if s = 0 then 1 else s))"

definition standardize :: "fval \<Rightarrow> fval \<Rightarrow> fval list \<Rightarrow> fval list" where
  "standardize m s col = map (\<lambda>x. fdiv (fsub x m) s) col"

definition StandardScaler_fit :: "matrix \<Rightarrow> error + scaler" where
  "StandardScaler_fit M =
     bind_err (check_array M) (\<lambda>A.
       Inr \<lparr>scaler_mean = map column_mean A, scaler_scale = map column_scale A\<rparr>)"

definition StandardScaler_transform :: "scaler \<Rightarrow> matrix \<Rightarrow> error + matrix" where
  "StandardScaler_transform sc M =
     bind_err (check_array M) (\<lambda>A.
       if length A \<noteq> length (scaler_mean sc)
       then Inl (ValueError ''X has a different number of features'')
       else Inr (map (\<lambda>(col, m, s). standardize m s col)
                  (zip A (zip (scaler_mean sc) (scaler_scale sc)))))"

text \<open>
  \<^verbatim>\<open>scaler_std.fit_transform(X)\<close> on a table: it replaces the fitted state of the scaler
  object and returns the transformed array.
\<close>

definition fit_transform :: "dataframe \<Rightarrow> error + scaler \<times> matrix" where
  "fit_transform X =
     bind_err (to_array X) (\<lambda>M.
     bind_err (StandardScaler_fit M) (\<lambda>sc.
     bind_err (StandardScaler_transform sc M) (\<lambda>T. Inr (sc, T))))"

subsection \<open>Row selection and \<^verbatim>\<open>train_test_split\<close>\<close>

text \<open>Indexing an array with a list of row numbers; a number out of range raises.\<close>

definition take_rows :: "nat list \<Rightarrow> 'a list \<Rightarrow> error + 'a list" where
  "take_rows idx xs =
     (if list_all (\<lambda>i. i < length xs) idx then Inr (map (\<lambda>i. xs ! i) idx) else Inl IndexError)"

definition mat_take_rows :: "nat list \<Rightarrow> matrix \<Rightarrow> error + matrix" where
  "mat_take_rows idx M = sequence_err (map (take_rows idx) M)"

fun col_take_rows :: "nat list \<Rightarrow> column \<Rightarrow> error + column" where
  "col_take_rows idx (Float64 xs) = bind_err (take_rows idx xs) (\<lambda>ys. Inr (Float64 ys))"
| "col_take_rows idx (Category cats codes) =
     bind_err (take_rows idx codes) (\<lambda>ys. Inr (Category cats ys))"

text \<open>The rows of a column in a given order, for row numbers that are all in range.\<close>

fun reorder :: "nat list \<Rightarrow> column \<Rightarrow> column" where
  "reorder idx (Float64 xs) = Float64 (map (\<lambda>i. xs ! i) idx)"
| "reorder idx (Category cats codes) = Category cats (map (\<lambda>i. codes ! i) idx)"

text \<open>
  \<^verbatim>\<open>train_test_split(X, y, test_size=t, random_state=42)\<close>. The shuffled order of the row
  numbers drawn by the seeded generator is the parameter \<open>perm\<close>; the test partition is its
  first \<open>ceil(t * n)\<close> entries, the training partition the rest.
\<close>

definition train_test_split ::
  "(nat \<Rightarrow> nat list) \<Rightarrow> matrix \<Rightarrow> column \<Rightarrow> real \<Rightarrow> error + matrix \<times> matrix \<times> column \<times> column" where
  "train_test_split perm X y test_size =
     (let n = mat_rows X;
          n_test = nat \<lceil>test_size * real n\<rceil>;
          n_train = n - n_test
      in if col_length y \<noteq> n
         then Inl (ValueError ''Found input variables with inconsistent numbers of samples'')
         else if n_train = 0 then Inl (ValueError ''the resulting train set will be empty'')
         else let permutation = perm n;
                  ind_test = take n_test permutation;
                  ind_train = take n_train (drop n_test permutation)
              in bind_err (mat_take_rows ind_train X) (\<lambda>X_train.
                 bind_err (mat_take_rows ind_test X) (\<lambda>X_test.
                 bind_err (col_take_rows ind_train y) (\<lambda>y_train.
                 bind_err (col_take_rows ind_test y) (\<lambda>y_test.
                   Inr (X_train, X_test, y_train, y_test))))))"

subsection \<open>Recursive feature elimination\<close>

text \<open>\<^verbatim>\<open>np.argsort\<close>: the positions of a list in increasing order of their values.\<close>

definition argsort :: "real list \<Rightarrow> nat list" where
  "argsort xs = map snd (sort_key fst (zip xs [0..<length xs]))"

text \<open>\<^verbatim>\<open>np.sum(support_)\<close> and the column selection \<^verbatim>\<open>X[:, support_]\<close>.\<close>

definition count_true :: "bool list \<Rightarrow> nat" where
  "count_true support = length (filter (\<lambda>b. b) support)"

definition select_columns :: "bool list \<Rightarrow> 'a list \<Rightarrow> 'a list" where
  "select_columns support cols = map snd (filter fst (zip support cols))"

text \<open>\<^verbatim>\<open>support_[eliminated] = False\<close>\<close>

definition clear_support :: "nat list \<Rightarrow> bool list \<Rightarrow> bool list" where
  "clear_support eliminated support = fold (\<lambda>j s. s[j := False]) eliminated support"

lemma length_clear_support [simp]: "length (clear_support js s) = length s"
  unfolding clear_support_def by (induction js arbitrary: s) simp_all

lemma count_true_features:
  "length (filter (\<lambda>i. s ! i) [0..<length s]) = count_true s"
  unfolding count_true_def
proof (induction s rule: rev_induct)
  case Nil
  show ?case by simp
next
  case (snoc b s)
  have "filter (\<lambda>i. (s @ [b]) ! i) [0..<length s] = filter (\<lambda>i. s ! i) [0..<length s]"
    by (rule filter_cong) (simp_all add: nth_append)
  with snoc show ?case by simp
qed

lemma count_true_clear_one:
  assumes "j < length s" "s ! j"
  shows "count_true (s[j := False]) < count_true s"
  using assms unfolding count_true_def
proof (induction s arbitrary: j)
  case Nil
  then show ?case by simp
next
  case (Cons b s)
  show ?case
  proof (cases j)
    case 0
    with Cons.prems show ?thesis by simp
  next
    case (Suc i)
    with Cons.prems Cons.IH[of i] show ?thesis by simp
  qed
qed

lemma count_true_clear_le: "count_true (s[j := False]) \<le> count_true s"
  unfolding count_true_def
proof (induction s arbitrary: j)
  case Nil
  show ?case by simp
next
  case (Cons b s)
  show ?case using Cons[of "j - 1"] by (cases j) (simp_all add: le_SucI)
qed

lemma count_true_clear_support_le: "count_true (clear_support js s) \<le> count_true s"
  unfolding clear_support_def
proof (induction js arbitrary: s)
  case Nil
  show ?case by simp
next
  case (Cons j js)
  have "count_true (fold (\<lambda>j s. s[j := False]) js (s[j := False])) \<le> count_true (s[j := False])"
    by (rule Cons)
  also have "\<dots> \<le> count_true s" by (rule count_true_clear_le)
  finally show ?case by simp
qed

lemma argsort_props: "length (argsort xs) = length xs" "set (argsort xs) = {0..<length xs}"
  unfolding argsort_def by (simp_all add: set_zip image_def) force

text \<open>
  One elimination round drops the lowest-ranked remaining column, so the number of
  retained columns goes down.
\<close>

lemma elimination_progress:
  assumes "k < count_true support" "length imps = count_true support"
  shows "count_true
           (clear_support
              (map (\<lambda>r. filter (\<lambda>i. support ! i) [0..<length support] ! r)
                 (take (min 1 (count_true support - k)) (argsort imps)))
              support)
         < count_true support"
proof -
  let ?features = "filter (\<lambda>i. support ! i) [0..<length support]"
  have len: "length ?features = count_true support" by (rule count_true_features)
  have m: "min 1 (count_true support - k) = 1" using assms(1) by simp
  have ne: "argsort imps \<noteq> []" using argsort_props(1)[of imps] assms by auto
  then obtain r rs where rs: "argsort imps = r # rs" by (cases "argsort imps") auto
  have "r \<in> set (argsort imps)" by (simp add: rs)
  then have r: "r < length ?features" by (simp add: argsort_props(2) len assms(2))
  then have "?features ! r \<in> set ?features" by (rule nth_mem)
  then have j: "?features ! r < length support" "support ! (?features ! r)" by auto
  have "clear_support (map (\<lambda>r. ?features ! r) (take 1 (argsort imps))) support
      = support[?features ! r := False]"
    by (simp add: rs clear_support_def)
  with count_true_clear_one[OF j] m show ?thesis by simp
qed

text \<open>
  The elimination loop of \<^verbatim>\<open>RFE.fit\<close> with the default \<^verbatim>\<open>step=1\<close>. The base estimator is a
  parameter: fitted on the remaining columns it raises or yields one importance per column,
  which the loop squares and ranks.
\<close>

function rfe_eliminate ::
  "(matrix \<Rightarrow> column \<Rightarrow> error + (nat \<Rightarrow> real)) \<Rightarrow> nat \<Rightarrow> matrix \<Rightarrow> column \<Rightarrow> bool list
     \<Rightarrow> error + bool list" where
  "rfe_eliminate estimator n_features_to_select X y support =
     (if n_features_to_select < count_true support then
        (case estimator (select_columns support X) y of
           Inl e \<Rightarrow> Inl e
         | Inr importance \<Rightarrow>
             rfe_eliminate estimator n_features_to_select X y
               (clear_support
                  (map (\<lambda>r. filter (\<lambda>i. support ! i) [0..<length support] ! r)
                     (take (min 1 (count_true support - n_features_to_select))
                        (argsort (map (\<lambda>j. (importance j)\<^sup>2) [0..<count_true support]))))
                  support))
      else Inr support)"
  by pat_completeness auto
termination
proof (relation "measure (\<lambda>(estimator, k, X, y, support). count_true support)")
  show "wf (measure (\<lambda>(estimator, k, X, y, support). count_true support))" by simp
next
  fix estimator :: "matrix \<Rightarrow> column \<Rightarrow> error + (nat \<Rightarrow> real)"
    and n_features_to_select X y support and importance :: "nat \<Rightarrow> real"
  assume "n_features_to_select < count_true support"
  then show "((estimator, n_features_to_select, X, y,
       clear_support
         (map (\<lambda>r. filter (\<lambda>i. support ! i) [0..<length support] ! r)
            (take (min 1 (count_true support - n_features_to_select))
               (argsort (map (\<lambda>j. (importance j)\<^sup>2) [0..<count_true support]))))
         support),
      (estimator, n_features_to_select, X, y, support))
     \<in> measure (\<lambda>(estimator, k, X, y, support). count_true support)"
    using elimination_progress[of n_features_to_select support
        "map (\<lambda>j. (importance j)\<^sup>2) [0..<count_true support]"]
    by simp
qed

declare rfe_eliminate.simps [simp del]

text \<open>
  \<^verbatim>\<open>RFE(estimator, n_features_to_select=k).fit(X, y)\<close>: the input needs at least two columns
  and one row and a label per row; the fitted attribute \<^verbatim>\<open>support_\<close> is the result.
\<close>

definition RFE_fit ::
  "(matrix \<Rightarrow> column \<Rightarrow> error + (nat \<Rightarrow> real)) \<Rightarrow> nat \<Rightarrow> matrix \<Rightarrow> column \<Rightarrow> error + bool list" where
  "RFE_fit estimator n_features_to_select X y =
     (if mat_rows X = 0 then Inl (ValueError ''Found array with 0 sample(s)'')
      else if length X < 2 then Inl (ValueError ''Found array with fewer than 2 feature(s)'')
      else if col_length y \<noteq> mat_rows X
      then Inl (ValueError ''Found input variables with inconsistent numbers of samples'')
      else rfe_eliminate estimator n_features_to_select X y (replicate (length X) True))"

text \<open>\<^verbatim>\<open>X.loc[:, mask]\<close> raises when the mask does not have one entry per column.\<close>

definition loc_columns :: "dataframe \<Rightarrow> bool list \<Rightarrow> error + dataframe" where
  "loc_columns X keep =
     (if length keep \<noteq> length X then Inl IndexError else Inr (select_columns keep X))"

subsection \<open>Scoring primitives\<close>

text \<open>
  Float64 arithmetic. A finite float64 is \<open>m * 2^e\<close> with an integer \<open>m\<close> of at most 53 bits
  and \<open>e\<close> at least \<open>-1074\<close>. Every arithmetic operation returns the exact result rounded to
  the nearest such number, a tie going to the even \<open>m\<close>. Overflow to infinity is not
  modelled: the scaler below is applied to stay probabilities, and its intermediate values
  stay far below the largest float64.
\<close>

definition pow2 :: "int \<Rightarrow> real" where
  "pow2 k = (if 0 \<le> k then 2 ^ nat k else 1 / 2 ^ nat (- k))"

text \<open>The binary exponent of a positive number: the \<open>k\<close> with \<open>2^k \<le> x < 2^(k+1)\<close>.\<close>

definition ilog2 :: "real \<Rightarrow> int" where
  "ilog2 x = (if 1 \<le> x then bitlen \<lfloor>x\<rfloor> - 1 else - bitlen (\<lceil>1 / x\<rceil> - 1))"

definition round_even :: "real \<Rightarrow> int" where
  "round_even y =
     (let f = \<lfloor>y\<rfloor>; r = y - of_int f
      in if r < 1 / 2 then f else if 1 / 2 < r then f + 1 else if even f then f else f + 1)"

text \<open>
  The exponent of the last bit of the float64 nearest to \<open>x\<close>: 52 below the binary exponent for
  a normal number, \<open>-1074\<close> for a subnormal one.
\<close>

definition float64_exponent :: "real \<Rightarrow> int" where
  "float64_exponent x = max (ilog2 \<bar>x\<bar>) (- 1022) - 52"

definition float64 :: "real \<Rightarrow> real" where
  "float64 x =
     (if x = 0 then 0
      else of_int (round_even (x / pow2 (float64_exponent x))) * pow2 (float64_exponent x))"

text \<open>\<^verbatim>\<open>np.finfo(np.float64).eps\<close>\<close>

definition float64_eps :: real where
  "float64_eps = 1 / 2 ^ 52"

text \<open>
  \<^verbatim>\<open>MinMaxScaler()\<close> on one column, with the default feature range \<open>(0, 1)\<close> and without
  clipping. \<^verbatim>\<open>fit\<close> converts the input to a float64 array and stores the minimum, the
  maximum and the range of the column passed in; a range below \<open>10 * eps\<close> is replaced by
  \<open>1\<close> before \<^verbatim>\<open>scale_ = (1 - 0) / range\<close> and \<^verbatim>\<open>min_ = 0 - data_min * scale_\<close> are
  computed. \<^verbatim>\<open>transform\<close> computes \<^verbatim>\<open>X *= scale_\<close> and then \<^verbatim>\<open>X += min_\<close>.
  \<^verbatim>\<open>fit_transform\<close> is \<^verbatim>\<open>fit(X).transform(X)\<close>.
\<close>

record minmax =
  minmax_data_min :: real
  minmax_data_max :: real
  minmax_data_range :: real
  minmax_scale :: real
  minmax_min :: real

definition MinMaxScaler_fit :: "real list \<Rightarrow> error + minmax" where
  "MinMaxScaler_fit xs =
     (if xs = [] then Inl (ValueError ''Found array with 0 sample(s)'')
      else let X = map float64 xs;
               data_min = Min (set X);
               data_max = Max (set X);
               data_range = float64 (data_max - data_min);
               scale = float64 (1 / (if data_range < 10 * float64_eps then 1 else data_range))
           in Inr \<lparr>minmax_data_min = data_min, minmax_data_max = data_max,
                   minmax_data_range = data_range, minmax_scale = scale,
                   minmax_min = float64 (0 - float64 (data_min * scale))\<rparr>)"

definition MinMaxScaler_transform :: "minmax \<Rightarrow> real list \<Rightarrow> error + real list" where
  "MinMaxScaler_transform fitted xs =
     (if xs = [] then Inl (ValueError ''Found array with 0 sample(s)'')
      else Inr (map (\<lambda>x. float64 (float64 (float64 x * minmax_scale fitted) + minmax_min fitted))
                 xs))"

definition MinMaxScaler_fit_transform :: "real list \<Rightarrow> error + real list" where
  "MinMaxScaler_fit_transform xs =
     bind_err (MinMaxScaler_fit xs) (\<lambda>fitted. MinMaxScaler_transform fitted xs)"

text \<open>
  \<^verbatim>\<open>Series.quantile(q)\<close> with the default linear interpolation between the two order
  statistics around position \<open>(n - 1) * q\<close>.
\<close>

definition quantile :: "real list \<Rightarrow> real \<Rightarrow> error + fval" where
  "quantile xs q =
     (if q < 0 \<or> 1 < q then Inl (ValueError ''percentiles should all be in the interval [0, 1]'')
      else if xs = [] then Inr NaN
      else let s = sort xs;
               pos = real (length xs - 1) * q;
               lo = nat \<lfloor>pos\<rfloor>;
               hi = min (lo + 1) (length xs - 1);
               frac = pos - real lo
           in Inr (Fin (s ! lo + (s ! hi - s ! lo) * frac)))"

text \<open>
  \<^verbatim>\<open>pd.cut(x, bins=bins, labels=labels)\<close> with the defaults \<^verbatim>\<open>right=True\<close>,
  \<^verbatim>\<open>include_lowest=False\<close>, \<^verbatim>\<open>duplicates='raise'\<close>: decreasing edges raise, repeated edges
  raise, and row \<open>x\<close> gets the label of the interval \<open>(bins[k], bins[k+1]]\<close> that contains it,
  found by a left binary search, or no label outside all intervals.
\<close>

definition searchsorted_left :: "fval list \<Rightarrow> fval \<Rightarrow> nat" where
  "searchsorted_left bins v = length (filter (\<lambda>b. fless b v) bins)"

definition cut :: "fval list \<Rightarrow> fval list \<Rightarrow> string list \<Rightarrow> error + column" where
  "cut x bins labels =
     (if list_ex (\<lambda>(a, b). fless b a) (zip bins (tl bins))
      then Inl (ValueError ''bins must increase monotonically.'')
      else if \<not> distinct bins \<and> length bins \<noteq> 2
      then Inl (ValueError ''Bin edges must be unique'')
      else if \<not> distinct labels then Inl (ValueError ''labels must be unique if ordered=True'')
      else if length labels \<noteq> length bins - 1
      then Inl (ValueError ''Bin labels must be one fewer than the number of bin edges'')
      else Inr (Category labels
             (map (\<lambda>v. let ids = searchsorted_left bins v
                        in if v = NaN \<or> ids = length bins \<or> ids = 0 then None
                           else Some (ids - 1)) x)))"

text \<open>
  \<^verbatim>\<open>df[name] = array\<close>: the array must have one entry per row of the table. (On a table
  without rows pandas takes the index from the value instead; cell 8 is only reached with at
  least one row.)
\<close>

definition setitem_array :: "dataframe \<Rightarrow> string \<Rightarrow> column \<Rightarrow> error + dataframe" where
  "setitem_array df c v =
     (if col_length v \<noteq> nrows df
      then Inl (ValueError ''Length of values does not match length of index'')
      else Inr (setitem df c v))"

text \<open>
  \<^verbatim>\<open>df.sort_values(by=name, ascending=...)\<close>: rows are ordered by the key column, rows with a
  missing key last. Rows with equal keys keep their original order: a descending sort
  reverses the rows, sorts them stably and reverses the result.
\<close>

fun sort_keys :: "column \<Rightarrow> (int \<times> real) option list" where
  "sort_keys (Float64 xs) =
     map (\<lambda>v. case v of Fin r \<Rightarrow> Some (0, r) | PInf \<Rightarrow> Some (1, 0) | NInf \<Rightarrow> Some (- 1, 0)
               | NaN \<Rightarrow> None) xs"
| "sort_keys (Category cats codes) = map (map_option (\<lambda>c. (0, real c))) codes"

definition argsort_values :: "column \<Rightarrow> bool \<Rightarrow> nat list" where
  "argsort_values c ascending =
     (let keys = sort_keys c;
          present = filter (\<lambda>i. \<not> Option.is_none (keys ! i)) [0..<length keys];
          missing = filter (\<lambda>i. Option.is_none (keys ! i)) [0..<length keys];
          argsort_keys = sort_key (\<lambda>i. the (keys ! i))
      in (if ascending then argsort_keys present else rev (argsort_keys (rev present)))
         @ missing)"

definition sort_values :: "dataframe \<Rightarrow> string \<Rightarrow> bool \<Rightarrow> error + dataframe" where
  "sort_values df by ascending =
     bind_err (getitem df by) (\<lambda>key.
       sequence_err
         (map (\<lambda>(name, c). bind_err (col_take_rows (argsort_values key ascending) c)
                              (\<lambda>c'. Inr (name, c'))) df))"

section \<open>The notebook\<close>

text \<open>
  The statistical library calls whose results the notebook only passes on are parameters:
  the shuffled row order of the seeded split, the SMOTE resampler, the importances of the
  random forest inside the feature elimination, the grid search with calibration (which
  returns the fitted classifier as a function from a feature array to the stay probability
  of each row), and the metrics printed by the evaluation cell (which may raise).
\<close>

record library =
  permutation :: "nat \<Rightarrow> nat list"
  smote_fit_resample :: "matrix \<Rightarrow> column \<Rightarrow> error + matrix \<times> column"
  forest_importances :: "matrix \<Rightarrow> column \<Rightarrow> error + (nat \<Rightarrow> real)"
  fit_calibrated_forest :: "matrix \<Rightarrow> column \<Rightarrow> error + (matrix \<Rightarrow> error + real list)"
  print_metrics ::
    "(matrix \<Rightarrow> error + real list) \<Rightarrow> matrix \<Rightarrow> column \<Rightarrow> matrix \<Rightarrow> column \<Rightarrow> error option"

text \<open>
  The variables of the notebook. A variable that no cell has assigned yet holds an empty
  value. The variables \<^verbatim>\<open>df\<close>, \<^verbatim>\<open>X\<close> and \<^verbatim>\<open>y\<close> are the fields \<open>df_frame\<close>, \<open>X_frame\<close> and
  \<open>y_series\<close>; \<open>rfe_support\<close> is \<^verbatim>\<open>rfe_selector.support_\<close>; \<open>output_file\<close> is the content
  of the exported spreadsheet.
\<close>

record notebook =
  df_frame :: dataframe
  X_frame :: dataframe
  y_series :: column
  scaler_std :: "scaler option"
  X_scaled :: matrix
  X_train :: matrix
  X_test :: matrix
  y_train :: column
  y_test :: column
  X_train_resampled :: matrix
  y_train_resampled :: column
  rfe_support :: "bool list"
  X_selected :: dataframe
  X_scaled_selected :: matrix
  X_train_sel :: matrix
  X_test_sel :: matrix
  y_train_sel :: column
  y_test_sel :: column
  X_train_sel_res :: matrix
  y_train_sel_res :: column
  calibrated_rf :: "matrix \<Rightarrow> error + real list"
  df_sorted :: dataframe
  output_file :: "dataframe option"

definition load :: "dataframe \<Rightarrow> notebook" where
  "load table =
     \<lparr>df_frame = table, X_frame = [], y_series = Float64 [], scaler_std = None, X_scaled = [],
      X_train = [], X_test = [], y_train = Float64 [], y_test = Float64 [],
      X_train_resampled = [], y_train_resampled = Float64 [], rfe_support = [],
      X_selected = [], X_scaled_selected = [], X_train_sel = [], X_test_sel = [],
      y_train_sel = Float64 [], y_test_sel = Float64 [], X_train_sel_res = [],
      y_train_sel_res = Float64 [], calibrated_rf = (\<lambda>M. Inl (ValueError ''not fitted'')),
      df_sorted = [], output_file = None\<rparr>"

subsection \<open>Cell 2\<close>

definition cell2 :: "notebook \<Rightarrow> error + notebook" where
  "cell2 st = bind_err (engineer_features (df_frame st)) (\<lambda>d. Inr (st\<lparr>df_frame := d\<rparr>))"

subsection \<open>Cell 3\<close>

text \<open>
  \<^verbatim>\<open>X = df.drop(columns=["Retained", "EmployeeNumber"], errors='ignore')\<close>,
  \<^verbatim>\<open>y = df["Retained"]\<close>, \<^verbatim>\<open>scaler_std = StandardScaler()\<close>,
  \<^verbatim>\<open>X_scaled = scaler_std.fit_transform(X)\<close>.
\<close>

definition cell3 :: "notebook \<Rightarrow> error + notebook" where
  "cell3 st =
     bind_err (drop_columns (df_frame st) [''Retained'', ''EmployeeNumber''] Ignore) (\<lambda>X.
     bind_err (getitem (df_frame st) ''Retained'') (\<lambda>y.
     bind_err (fit_transform X) (\<lambda>(sc, T).
       Inr (st\<lparr>X_frame := X, y_series := y, scaler_std := Some sc, X_scaled := T\<rparr>))))"

subsection \<open>Cell 4\<close>

text \<open>
  \<^verbatim>\<open>X_train, X_test, y_train, y_test = train_test_split(X_scaled, y, test_size=0.2,
  random_state=42)\<close>
\<close>

definition split_step :: "library \<Rightarrow> notebook \<Rightarrow> error + notebook" where
  "split_step lib st =
     bind_err (train_test_split (permutation lib) (X_scaled st) (y_series st) (2 / 10))
       (\<lambda>(Xtr, Xte, ytr, yte).
          Inr (st\<lparr>X_train := Xtr, X_test := Xte, y_train := ytr, y_test := yte\<rparr>))"

text \<open>
  \<^verbatim>\<open>sm = SMOTE(random_state=42)\<close>,
  \<^verbatim>\<open>X_train_resampled, y_train_resampled = sm.fit_resample(X_train, y_train)\<close>
\<close>

definition balance_step :: "library \<Rightarrow> notebook \<Rightarrow> error + notebook" where
  "balance_step lib st =
     bind_err (smote_fit_resample lib (X_train st) (y_train st)) (\<lambda>(Xr, yr).
       Inr (st\<lparr>X_train_resampled := Xr, y_train_resampled := yr\<rparr>))"

definition cell4 :: "library \<Rightarrow> notebook \<Rightarrow> error + notebook" where
  "cell4 lib st = bind_err (split_step lib st) (balance_step lib)"

subsection \<open>Cell 5\<close>

text \<open>
  \<^verbatim>\<open>rfe_selector = RFE(estimator=RandomForestClassifier(), n_features_to_select=20)\<close>,
  \<^verbatim>\<open>rfe_selector.fit(X_scaled, y)\<close>, \<^verbatim>\<open>X_selected = X.loc[:, rfe_selector.support_]\<close>,
  \<^verbatim>\<open>X_scaled_selected = scaler_std.fit_transform(X_selected)\<close>
\<close>

definition select_step :: "library \<Rightarrow> notebook \<Rightarrow> error + notebook" where
  "select_step lib st =
     bind_err (RFE_fit (forest_importances lib) 20 (X_scaled st) (y_series st)) (\<lambda>support.
     bind_err (loc_columns (X_frame st) support) (\<lambda>Xs.
     bind_err (fit_transform Xs) (\<lambda>(sc, T).
       Inr (st\<lparr>rfe_support := support, X_selected := Xs, scaler_std := Some sc,
               X_scaled_selected := T\<rparr>))))"

text \<open>
  \<^verbatim>\<open>X_train_sel, X_test_sel, y_train_sel, y_test_sel = train_test_split(X_scaled_selected, y,
  test_size=0.2, random_state=42)\<close>
\<close>

definition split_sel_step :: "library \<Rightarrow> notebook \<Rightarrow> error + notebook" where
  "split_sel_step lib st =
     bind_err (train_test_split (permutation lib) (X_scaled_selected st) (y_series st) (2 / 10))
       (\<lambda>(Xtr, Xte, ytr, yte).
          Inr (st\<lparr>X_train_sel := Xtr, X_test_sel := Xte, y_train_sel := ytr,
                  y_test_sel := yte\<rparr>))"

text \<open>\<^verbatim>\<open>X_train_sel_res, y_train_sel_res = sm.fit_resample(X_train_sel, y_train_sel)\<close>\<close>

definition balance_sel_step :: "library \<Rightarrow> notebook \<Rightarrow> error + notebook" where
  "balance_sel_step lib st =
     bind_err (smote_fit_resample lib (X_train_sel st) (y_train_sel st)) (\<lambda>(Xr, yr).
       Inr (st\<lparr>X_train_sel_res := Xr, y_train_sel_res := yr\<rparr>))"

definition cell5 :: "library \<Rightarrow> notebook \<Rightarrow> error + notebook" where
  "cell5 lib st =
     bind_err (select_step lib st) (\<lambda>st1.
     bind_err (split_sel_step lib st1) (balance_sel_step lib))"

subsection \<open>Cells 6 and 7\<close>

text \<open>
  The grid search and the calibration are fitted on the resampled, selected training set;
  the evaluation cell only prints.
\<close>

definition cell6 :: "library \<Rightarrow> notebook \<Rightarrow> error + notebook" where
  "cell6 lib st =
     bind_err (fit_calibrated_forest lib (X_train_sel_res st) (y_train_sel_res st)) (\<lambda>clf.
       Inr (st\<lparr>calibrated_rf := clf\<rparr>))"

definition cell7 :: "library \<Rightarrow> notebook \<Rightarrow> error + notebook" where
  "cell7 lib st =
     (case print_metrics lib (calibrated_rf st) (X_test_sel st) (y_test_sel st)
             (X_scaled_selected st) (y_series st) of
        Some e \<Rightarrow> Inl e
      | None \<Rightarrow> Inr st)"

subsection \<open>Cell 8: risk score and risk level\<close>

text \<open>
  \<^verbatim>\<open>scaler = MinMaxScaler()\<close>,
  \<^verbatim>\<open>1 - scaler.fit_transform(df[["Predicted_Prob_Stay"]])\<close>
\<close>

definition retention_risk :: "real list \<Rightarrow> error + real list" where
  "retention_risk probs =
     bind_err (MinMaxScaler_fit_transform probs) (\<lambda>scaled.
       Inr (map (\<lambda>v. float64 (1 - v)) scaled))"

text \<open>
  \<^verbatim>\<open>percentile_90 = df["Retention_Risk"].quantile(0.90)\<close>,
  \<^verbatim>\<open>percentile_50 = df["Retention_Risk"].quantile(0.50)\<close>,
  \<^verbatim>\<open>pd.cut(df["Retention_Risk"], bins=[-inf, percentile_50, percentile_90, inf],
  labels=["Low Risk", "Moderate Risk", "High Risk"])\<close>
\<close>

definition risk_level :: "real list \<Rightarrow> error + column" where
  "risk_level risk =
     bind_err (quantile risk (90 / 100)) (\<lambda>percentile_90.
     bind_err (quantile risk (50 / 100)) (\<lambda>percentile_50.
       cut (map Fin risk) [NInf, percentile_50, percentile_90, PInf]
         [''Low Risk'', ''Moderate Risk'', ''High Risk'']))"


text \<open>
  The cell stores the three columns in \<^verbatim>\<open>df\<close>. It reads each column back right after
  storing it; the model passes the stored values on.
\<close>

definition cell8 :: "notebook \<Rightarrow> error + notebook" where
  "cell8 st =
     bind_err (calibrated_rf st (X_scaled_selected st)) (\<lambda>probs.
     bind_err (setitem_array (df_frame st) ''Predicted_Prob_Stay'' (Float64 (map Fin probs)))
       (\<lambda>df1.
     bind_err (retention_risk probs) (\<lambda>risk.
     bind_err (setitem_array df1 ''Retention_Risk'' (Float64 (map Fin risk))) (\<lambda>df2.
     bind_err (risk_level risk) (\<lambda>levels.
       Inr (st\<lparr>df_frame := setitem df2 ''Risk_Level'' levels\<rparr>))))))"

subsection \<open>Cell 9: export\<close>

text \<open>
  \<^verbatim>\<open>df_sorted = df.sort_values(by="Retention_Risk", ascending=False)\<close>,
  \<^verbatim>\<open>df_sorted.to_excel(..., index=False)\<close>
\<close>

definition cell9 :: "notebook \<Rightarrow> error + notebook" where
  "cell9 st =
     bind_err (sort_values (df_frame st) ''Retention_Risk'' False) (\<lambda>sorted.
       Inr (st\<lparr>df_sorted := sorted, output_file := Some sorted\<rparr>))"

subsection \<open>The whole run\<close>

text \<open>Cells 2 and 3, then cells 4 and 5, then the rest of the notebook up to the export.\<close>

definition preprocess :: "dataframe \<Rightarrow> error + notebook" where
  "preprocess table = bind_err (cell2 (load table)) cell3"

definition prepare :: "library \<Rightarrow> dataframe \<Rightarrow> error + notebook" where
  "prepare lib table =
     bind_err (preprocess table) (\<lambda>s3.
     bind_err (cell4 lib s3) (cell5 lib))"

definition pipeline :: "library \<Rightarrow> dataframe \<Rightarrow> error + notebook" where
  "pipeline lib table =
     bind_err (prepare lib table) (\<lambda>s5.
     bind_err (cell6 lib s5) (\<lambda>s6.
     bind_err (cell7 lib s6) (\<lambda>s7.
     bind_err (cell8 s7) cell9)))"

section \<open>Example inputs\<close>

text \<open>
  A five-row table with two of the optional source columns, a table with 21 feature columns,
  and stand-ins for the library calls: the split keeps the rows in reverse order, the
  resampler returns the training set as it is, the forest ranks the columns by position and
  the fitted classifier returns five fixed probabilities.
\<close>

definition demo_table :: dataframe where
  "demo_table =
     [(''EmployeeNumber'', Float64 [Fin 1, Fin 2, Fin 3, Fin 4, Fin 5]),
      (''Retained'', Float64 [Fin 1, Fin 1, Fin 0, Fin 1, Fin 0]),
      (''JobSatisfaction'', Float64 [Fin 3, Fin 3, Fin 3, Fin 3, Fin 3]),
      (''WorkLifeBalance'', Float64 [Fin 2, Fin 2, Fin 2, Fin 2, Fin 2])]"

definition wide_table :: dataframe where
  "wide_table =
     (''Retained'', Float64 [Fin 1, Fin 1, Fin 0, Fin 1, Fin 0]) #
     map (\<lambda>i. (replicate (Suc i) CHR ''f'', Float64 (replicate 5 (Fin (real i))))) [0..<21]"

definition demo_library :: library where
  "demo_library =
     \<lparr>permutation = (\<lambda>n. rev [0..<n]),
      smote_fit_resample = (\<lambda>X y. Inr (X, y)),
      forest_importances = (\<lambda>X y. Inr (\<lambda>j. real j)),
      fit_calibrated_forest =
        (\<lambda>X y. Inr (\<lambda>M. Inr [9 / 10, 5 / 10, 1 / 10, 7 / 10, 3 / 10])),
      print_metrics = (\<lambda>clf Xt yt Xs y. None)\<rparr>"

text \<open>The same library with a classifier whose extreme probabilities are 0.6 and 0.9.\<close>

definition rounding_library :: library where
  "rounding_library =
     demo_library
       \<lparr>fit_calibrated_forest :=
          (\<lambda>X y. Inr (\<lambda>M. Inr [6 / 10, 9 / 10, 7 / 10, 8 / 10, 75 / 100]))\<rparr>"

section \<open>Verification: float64 rounding\<close>

text \<open>The equations that the simplifier unfolds to round a concrete number.\<close>

lemma floorlog_numeral:
  "floorlog 2 (numeral k) = floorlog 2 (numeral k div 2) + 1"
  by (subst compute_floorlog) simp

lemma floorlog_small: "floorlog 2 0 = 0" "floorlog 2 (Suc 0) = 1"
  by (simp_all add: compute_floorlog)

lemmas float64_eval = float64_def float64_exponent_def ilog2_def round_even_def pow2_def
  bitlen_def Let_def float64_eps_def floorlog_numeral floorlog_small

lemma pow2_powr: "pow2 k = 2 powr (real_of_int k)"
  by (simp add: pow2_def powr_real_of_int inverse_eq_divide)

lemma pow2_pos: "0 < pow2 k"
  by (simp add: pow2_powr)

lemma pow2_add: "pow2 (a + b) = pow2 a * pow2 b"
  by (simp add: pow2_powr powr_add)

lemma pow2_mono: "a \<le> b \<Longrightarrow> pow2 a \<le> pow2 b"
  by (simp add: pow2_powr)

lemma pow2_nat: "0 \<le> k \<Longrightarrow> pow2 k = real_of_int (2 ^ nat k)"
  by (simp add: pow2_def)

lemma ilog2_bounds:
  assumes "0 < x"
  shows "pow2 (ilog2 x) \<le> x" and "x < pow2 (ilog2 x + 1)"
proof -
  have "pow2 (ilog2 x) \<le> x \<and> x < pow2 (ilog2 x + 1)"
  proof (cases "1 \<le> x")
    case True
    define n where "n = \<lfloor>x\<rfloor>"
    have n: "0 < n" using True unfolding n_def by simp
    from bitlen_bounds[OF n]
    have lo: "2 ^ nat (bitlen n - 1) \<le> n" and hi: "n < 2 ^ nat (bitlen n)" by simp_all
    have b: "1 \<le> bitlen n" using n by (simp add: bitlen_def floorlog_def)
    have "real_of_int (2 ^ nat (bitlen n - 1)) \<le> real_of_int n"
      using lo by (simp only: of_int_le_iff)
    also have "\<dots> \<le> x" unfolding n_def by simp
    finally have l: "pow2 (bitlen n - 1) \<le> x" using b by (simp add: pow2_def)
    have "n + 1 \<le> 2 ^ nat (bitlen n)" using hi by simp
    then have "real_of_int (n + 1) \<le> real_of_int (2 ^ nat (bitlen n))"
      by (simp only: of_int_le_iff)
    moreover have "x < real_of_int (n + 1)" unfolding n_def by linarith
    ultimately have h: "x < pow2 (bitlen n)" using b by (simp add: pow2_def)
    from l h True show ?thesis by (simp add: ilog2_def n_def)
  next
    case False
    define y where "y = 1 / x"
    define m where "m = \<lceil>y\<rceil> - 1"
    have y: "1 < y" using False assms unfolding y_def by simp
    have m: "0 < m" using y unfolding m_def by linarith
    from bitlen_bounds[OF m]
    have lo: "2 ^ nat (bitlen m - 1) \<le> m" and hi: "m < 2 ^ nat (bitlen m)" by simp_all
    have b: "1 \<le> bitlen m" using m by (simp add: bitlen_def floorlog_def)
    have "m + 1 \<le> 2 ^ nat (bitlen m)" using hi by simp
    then have "real_of_int (m + 1) \<le> real_of_int (2 ^ nat (bitlen m))"
      by (simp only: of_int_le_iff)
    moreover have "y \<le> real_of_int (m + 1)" unfolding m_def by simp
    ultimately have "y \<le> 2 ^ nat (bitlen m)" by simp
    then have l: "1 / 2 ^ nat (bitlen m) \<le> x"
      using assms unfolding y_def by (simp add: field_simps)
    have "real_of_int (2 ^ nat (bitlen m - 1)) \<le> real_of_int m"
      using lo by (simp only: of_int_le_iff)
    then have "(2::real) ^ nat (bitlen m - 1) \<le> real_of_int m" by simp
    moreover have "real_of_int m < y" unfolding m_def by linarith
    ultimately have "2 ^ nat (bitlen m - 1) < y" by linarith
    then have h: "x < 1 / 2 ^ nat (bitlen m - 1)"
      using assms unfolding y_def by (simp add: field_simps)
    have e: "ilog2 x = - bitlen m" using False by (simp add: ilog2_def m_def y_def)
    have p1: "pow2 (- bitlen m) = 1 / 2 ^ nat (bitlen m)"
      using b by (simp add: pow2_def)
    have p2: "pow2 (- bitlen m + 1) = 1 / 2 ^ nat (bitlen m - 1)"
    proof (cases "bitlen m = 1")
      case True
      then show ?thesis by (simp add: pow2_def)
    next
      case False
      then have "- bitlen m + 1 < 0" using b by simp
      moreover have "nat (- (- bitlen m + 1)) = nat (bitlen m - 1)" by simp
      ultimately show ?thesis by (simp add: pow2_def)
    qed
    from l h show ?thesis unfolding e p1 p2 by simp
  qed
  then show "pow2 (ilog2 x) \<le> x" and "x < pow2 (ilog2 x + 1)" by simp_all
qed

lemma ilog2_less:
  assumes "0 < x" "x < pow2 k"
  shows "ilog2 x < k"
proof (rule ccontr)
  assume "\<not> ilog2 x < k"
  then have "pow2 k \<le> pow2 (ilog2 x)" by (simp add: pow2_mono)
  with ilog2_bounds(1)[OF assms(1)] assms(2) show False by simp
qed

lemma ilog2_mono:
  assumes "0 < x" "x \<le> y"
  shows "ilog2 x \<le> ilog2 y"
proof -
  have "0 < y" using assms by simp
  from ilog2_bounds(2)[OF this] assms(2) have "x < pow2 (ilog2 y + 1)" by simp
  from ilog2_less[OF assms(1) this] show ?thesis by simp
qed

lemma round_even_of_int: "round_even (real_of_int k) = k"
  by (simp add: round_even_def)

lemma round_even_floor: "\<lfloor>y\<rfloor> \<le> round_even y" "round_even y \<le> \<lfloor>y\<rfloor> + 1"
  by (simp_all add: round_even_def Let_def)

lemma round_even_mono:
  assumes "y \<le> z"
  shows "round_even y \<le> round_even z"
proof (cases "\<lfloor>y\<rfloor> = \<lfloor>z\<rfloor>")
  case True
  then show ?thesis using assms by (auto simp: round_even_def Let_def)
next
  case False
  moreover have "\<lfloor>y\<rfloor> \<le> \<lfloor>z\<rfloor>" using assms by (rule floor_mono)
  ultimately have "\<lfloor>y\<rfloor> + 1 \<le> \<lfloor>z\<rfloor>" by simp
  with round_even_floor(2)[of y] round_even_floor(1)[of z] show ?thesis by linarith
qed

lemma round_even_uminus: "round_even (- y) = - round_even y"
proof (cases "y = real_of_int \<lfloor>y\<rfloor>")
  case True
  then obtain k where "y = real_of_int k" ..
  then have "- y = real_of_int (- k)" by simp
  then show ?thesis using \<open>y = real_of_int k\<close> by (simp only: round_even_of_int)
next
  case False
  then have f: "\<lfloor>- y\<rfloor> = - \<lfloor>y\<rfloor> - 1"
    by (metis ceiling_altdef ceiling_def add_diff_cancel_right' minus_diff_eq minus_minus diff_minus_eq_add uminus_add_conv_diff)
  show ?thesis
    unfolding round_even_def Let_def f using False by (auto simp: algebra_simps)
qed

lemma float64_exponent_ge: "- 1074 \<le> float64_exponent x"
  by (simp add: float64_exponent_def)

lemma float64_exponent_uminus: "float64_exponent (- x) = float64_exponent x"
  by (simp add: float64_exponent_def)

lemma float64_exponent_mono:
  assumes "0 < x" "x \<le> y"
  shows "float64_exponent x \<le> float64_exponent y"
  using ilog2_mono[OF assms] assms by (simp add: float64_exponent_def)

lemma pow2_neq0: "pow2 k \<noteq> 0"
  using pow2_pos[of k] by simp

lemma pow2_abs: "\<bar>pow2 k\<bar> = pow2 k"
  using pow2_pos[of k] by simp

lemma pow2_numeral: "pow2 (numeral n) = 2 ^ numeral n" "pow2 1 = 2"
  by (simp_all add: pow2_def)

lemma pow2_53: "pow2 (k + 53) = pow2 k * 2 ^ 53"
  by (simp add: pow2_add pow2_numeral)

lemma pow2_52: "pow2 (k + 52) = pow2 k * 2 ^ 52"
  by (simp add: pow2_add pow2_numeral)

lemma scaled_less:
  assumes "0 < x"
  shows "x / pow2 (float64_exponent x) < 2 ^ 53"
proof -
  have "ilog2 x + 1 \<le> float64_exponent x + 53"
    using assms by (simp add: float64_exponent_def)
  then have "pow2 (ilog2 x + 1) \<le> pow2 (float64_exponent x + 53)" by (rule pow2_mono)
  with ilog2_bounds(2)[OF assms] have "x < pow2 (float64_exponent x) * 2 ^ 53"
    by (simp add: pow2_53)
  then show ?thesis using pow2_pos[of "float64_exponent x"] by (simp add: field_simps)
qed

lemma scaled_ge:
  assumes "0 < x" "float64_exponent x = ilog2 x - 52"
  shows "2 ^ 52 \<le> x / pow2 (float64_exponent x)"
proof -
  have "pow2 (float64_exponent x + 52) \<le> x"
    using ilog2_bounds(1)[OF assms(1)] by (simp add: assms(2))
  then have "pow2 (float64_exponent x) * 2 ^ 52 \<le> x" by (simp add: pow2_52)
  then show ?thesis using pow2_pos[of "float64_exponent x"] by (simp add: field_simps)
qed

lemma float64_zero: "float64 0 = 0"
  by (simp add: float64_def)

lemma float64_one: "float64 1 = 1"
  by (simp add: float64_eval)

lemma float64_uminus: "float64 (- x) = - float64 x"
  by (simp add: float64_def float64_exponent_uminus round_even_uminus)

lemma float64_nonneg:
  assumes "0 \<le> x"
  shows "0 \<le> float64 x"
proof -
  have "0 \<le> x / pow2 (float64_exponent x)"
    using assms pow2_pos[of "float64_exponent x"] by simp
  from round_even_mono[OF this] have "0 \<le> round_even (x / pow2 (float64_exponent x))"
    using round_even_of_int[of 0] by simp
  then show ?thesis
    using pow2_pos[of "float64_exponent x"] by (simp add: float64_def)
qed

lemma float64_mono_pos:
  assumes "0 < x" "x \<le> y"
  shows "float64 x \<le> float64 y"
proof -
  let ?a = "float64_exponent x" and ?b = "float64_exponent y"
  have y: "0 < y" using assms by simp
  have ab: "?a \<le> ?b" by (rule float64_exponent_mono[OF assms])
  have fx: "float64 x = of_int (round_even (x / pow2 ?a)) * pow2 ?a"
    using assms(1) by (simp add: float64_def)
  have fy: "float64 y = of_int (round_even (y / pow2 ?b)) * pow2 ?b"
    using y by (simp add: float64_def)
  show ?thesis
  proof (cases "?a = ?b")
    case True
    have "x / pow2 ?b \<le> y / pow2 ?b"
      using assms(2) pow2_pos[of ?b] by (simp add: divide_right_mono)
    from round_even_mono[OF this] show ?thesis
      unfolding fx fy True using pow2_pos[of ?b] by simp
  next
    case False
    with ab have lt: "?a + 1 \<le> ?b" by simp
    have "x / pow2 ?a \<le> real_of_int (2 ^ 53)"
      using scaled_less[OF assms(1)] by simp
    from round_even_mono[OF this] have "round_even (x / pow2 ?a) \<le> 2 ^ 53"
      by (simp only: round_even_of_int)
    then have "real_of_int (round_even (x / pow2 ?a)) \<le> real_of_int (2 ^ 53)"
      by (simp only: of_int_le_iff)
    then have "float64 x \<le> 2 ^ 53 * pow2 ?a"
      unfolding fx using pow2_pos[of ?a] by simp
    also have "\<dots> = pow2 (?a + 53)" by (simp add: pow2_53)
    finally have up: "float64 x \<le> pow2 (?a + 53)" .
    have "- 1074 < ?b" using lt float64_exponent_ge[of x] by simp
    then have eb: "?b = ilog2 y - 52" using y by (simp add: float64_exponent_def max_def split: if_splits)
    have "real_of_int (2 ^ 52) \<le> y / pow2 ?b"
      using scaled_ge[OF y eb] by simp
    from round_even_mono[OF this] have "2 ^ 52 \<le> round_even (y / pow2 ?b)"
      by (simp only: round_even_of_int)
    then have "real_of_int (2 ^ 52) \<le> real_of_int (round_even (y / pow2 ?b))"
      by (simp only: of_int_le_iff)
    then have "2 ^ 52 * pow2 ?b \<le> float64 y"
      unfolding fy using pow2_pos[of ?b] by simp
    moreover have "2 ^ 52 * pow2 ?b = pow2 (?b + 52)" by (simp add: pow2_52)
    ultimately have low: "pow2 (?b + 52) \<le> float64 y" by simp
    have "pow2 (?a + 53) \<le> pow2 (?b + 52)" using lt by (intro pow2_mono) simp
    with up low show ?thesis by linarith
  qed
qed

lemma float64_mono:
  assumes "x \<le> y"
  shows "float64 x \<le> float64 y"
proof -
  consider "x \<le> 0" "0 \<le> y" | "0 < x" | "y < 0" by linarith
  then show ?thesis
  proof cases
    case 1
    from float64_nonneg[of "- x"] 1(1) have "float64 x \<le> 0" by (simp add: float64_uminus)
    with float64_nonneg[OF 1(2)] show ?thesis by simp
  next
    case 2
    then show ?thesis using assms by (rule float64_mono_pos)
  next
    case 3
    then have "0 < - y" "- y \<le> - x" using assms by simp_all
    from float64_mono_pos[OF this] show ?thesis by (simp add: float64_uminus)
  qed
qed

lemma float64_exact_pos:
  assumes "0 < m" "m < 2 ^ 53" "- 1074 \<le> e"
  shows "float64 (real_of_int m * pow2 e) = real_of_int m * pow2 e"
proof -
  let ?z = "real_of_int m * pow2 e"
  let ?a = "float64_exponent ?z"
  have z: "0 < ?z" using assms(1) pow2_pos[of e] by simp
  have "real_of_int m < real_of_int (2 ^ 53)" using assms(2) by (simp only: of_int_less_iff)
  then have "?z < 2 ^ 53 * pow2 e" using pow2_pos[of e] by simp
  then have "?z < pow2 (e + 53)" by (simp add: pow2_53)
  from ilog2_less[OF z this] have "ilog2 ?z \<le> e + 52" by simp
  then have ae: "?a \<le> e"
    using assms(3) z by (simp add: float64_exponent_def)
  then have d: "pow2 e = pow2 ?a * real_of_int (2 ^ nat (e - ?a))"
    using pow2_add[of ?a "e - ?a"] pow2_nat[of "e - ?a"] by simp
  have "?z / pow2 ?a = real_of_int (m * 2 ^ nat (e - ?a))"
    using pow2_pos[of ?a] by (subst d) simp
  then have "round_even (?z / pow2 ?a) = m * 2 ^ nat (e - ?a)"
    by (simp only: round_even_of_int)
  then have "float64 ?z = real_of_int (m * 2 ^ nat (e - ?a)) * pow2 ?a"
    using z unfolding float64_def by (simp only: if_not_P[OF less_imp_neq[OF z, symmetric]])
  also have "\<dots> = ?z" by (subst (2) d) simp
  finally show ?thesis .
qed

lemma float64_exact:
  assumes "\<bar>m\<bar> \<le> 2 ^ 53" "- 1074 \<le> e"
  shows "float64 (real_of_int m * pow2 e) = real_of_int m * pow2 e"
proof -
  have pos: "float64 (real_of_int k * pow2 e) = real_of_int k * pow2 e"
    if "0 < k" "k \<le> 2 ^ 53" for k
  proof (cases "k = 2 ^ 53")
    case True
    have "real_of_int k * pow2 e = real_of_int (2 ^ 52) * pow2 (e + 1)"
      unfolding True by (simp add: pow2_add pow2_numeral)
    moreover have "float64 (real_of_int (2 ^ 52) * pow2 (e + 1)) = real_of_int (2 ^ 52) * pow2 (e + 1)"
      using assms(2) by (intro float64_exact_pos) simp_all
    ultimately show ?thesis by simp
  next
    case False
    with that show ?thesis using assms(2) by (intro float64_exact_pos) simp_all
  qed
  consider "m = 0" | "0 < m" | "m < 0" by linarith
  then show ?thesis
  proof cases
    case 1
    then show ?thesis by (simp add: float64_zero)
  next
    case 2
    with assms(1) show ?thesis by (intro pos) simp_all
  next
    case 3
    with assms(1) have "float64 (real_of_int (- m) * pow2 e) = real_of_int (- m) * pow2 e"
      by (intro pos) simp_all
    then have "float64 (- (real_of_int m * pow2 e)) = - (real_of_int m * pow2 e)" by simp
    then show ?thesis by (simp only: float64_uminus neg_equal_iff_equal)
  qed
qed

lemma float64_idem: "float64 (float64 x) = float64 x"
proof (cases "x = 0")
  case True
  then show ?thesis by (simp add: float64_zero)
next
  case False
  let ?a = "float64_exponent x"
  have "\<bar>x\<bar> / pow2 (float64_exponent \<bar>x\<bar>) < 2 ^ 53"
    using False by (intro scaled_less) simp
  moreover have "float64_exponent \<bar>x\<bar> = ?a" by (simp add: float64_exponent_def)
  ultimately have "\<bar>x / pow2 ?a\<bar> < 2 ^ 53" by (simp add: pow2_abs)
  then have "- (2 ^ 53) < x / pow2 ?a" "x / pow2 ?a < 2 ^ 53"
    by (simp_all only: abs_less_iff minus_less_iff)
  then have "real_of_int (- (2 ^ 53)) \<le> x / pow2 ?a" "x / pow2 ?a \<le> real_of_int (2 ^ 53)"
    by simp_all
  from round_even_mono[OF this(1)] round_even_mono[OF this(2)]
  have "- (2 ^ 53) \<le> round_even (x / pow2 ?a)" "round_even (x / pow2 ?a) \<le> 2 ^ 53"
    by (simp_all only: round_even_of_int)
  then have "\<bar>round_even (x / pow2 ?a)\<bar> \<le> 2 ^ 53" by simp
  from float64_exact[OF this float64_exponent_ge[of x]] show ?thesis
    using False by (simp add: float64_def)
qed

subsection \<open>The min-max scaler and the risk score\<close>

lemma float64_Min:
  assumes "xs \<noteq> []"
  shows "Min (set (map float64 xs)) = float64 (Min (set xs))"
    and "Max (set (map float64 xs)) = float64 (Max (set xs))"
proof -
  have m: "mono float64" by (rule monoI) (rule float64_mono)
  show "Min (set (map float64 xs)) = float64 (Min (set xs))"
    using mono_Min_commute[OF m, of "set xs"] assms by simp
  show "Max (set (map float64 xs)) = float64 (Max (set xs))"
    using mono_Max_commute[OF m, of "set xs"] assms by simp
qed

lemma MinMaxScaler_fit_cases:
  assumes "xs \<noteq> []"
  obtains fitted where "MinMaxScaler_fit xs = Inr fitted"
    "minmax_data_min fitted = float64 (Min (set xs))"
    "minmax_data_max fitted = float64 (Max (set xs))"
    "minmax_data_range fitted = float64 (minmax_data_max fitted - minmax_data_min fitted)"
    "minmax_scale fitted = float64 (1 / (if minmax_data_range fitted < 10 * float64_eps then 1
                                         else minmax_data_range fitted))"
    "minmax_min fitted = float64 (0 - float64 (minmax_data_min fitted * minmax_scale fitted))"
    "minmax_min fitted = - float64 (minmax_data_min fitted * minmax_scale fitted)"
    "0 \<le> minmax_scale fitted"
proof -
  define dmin where "dmin = float64 (Min (set xs))"
  define dmax where "dmax = float64 (Max (set xs))"
  define rng where "rng = float64 (dmax - dmin)"
  define d where "d = (if rng < 10 * float64_eps then 1 else rng)"
  define fitted where "fitted = \<lparr>minmax_data_min = dmin, minmax_data_max = dmax,
    minmax_data_range = rng, minmax_scale = float64 (1 / d),
    minmax_min = float64 (0 - float64 (dmin * float64 (1 / d)))\<rparr>"
  have fit: "MinMaxScaler_fit xs = Inr fitted"
    using assms float64_Min[OF assms]
    by (simp add: MinMaxScaler_fit_def Let_def fitted_def d_def rng_def dmin_def dmax_def)
  have "0 < d" by (simp add: d_def float64_eps_def)
  then have "0 \<le> 1 / d" by simp
  then have s: "0 \<le> minmax_scale fitted" by (simp add: fitted_def float64_nonneg)
  have off: "minmax_min fitted = - float64 (minmax_data_min fitted * minmax_scale fitted)"
    by (simp add: fitted_def float64_uminus float64_idem)
  show ?thesis
    using fit s off
    by (intro that[of fitted]) (simp_all add: fitted_def d_def rng_def dmin_def dmax_def)
qed

lemma minmax_transform_mono:
  assumes "0 \<le> s" "x \<le> y"
  shows "float64 (float64 (float64 x * s) + off) \<le> float64 (float64 (float64 y * s) + off)"
proof -
  have "float64 x * s \<le> float64 y * s"
    using float64_mono[OF assms(2)] assms(1) by (rule mult_right_mono)
  then have "float64 (float64 x * s) + off \<le> float64 (float64 y * s) + off"
    using float64_mono by simp
  then show ?thesis by (rule float64_mono)
qed


lemma retention_risk_properties:
  assumes "probs \<noteq> []"
  shows "\<exists>fitted risk. MinMaxScaler_fit probs = Inr fitted \<and>
    retention_risk probs = Inr risk \<and> length risk = length probs \<and>
    minmax_data_min fitted = float64 (Min (set probs)) \<and>
    minmax_data_max fitted = float64 (Max (set probs)) \<and>
    minmax_data_range fitted = float64 (minmax_data_max fitted - minmax_data_min fitted) \<and>
    minmax_scale fitted = float64 (1 / (if minmax_data_range fitted < 10 * float64_eps then 1
                                         else minmax_data_range fitted)) \<and>
    minmax_min fitted = float64 (0 - float64 (minmax_data_min fitted * minmax_scale fitted)) \<and>
    (\<forall>i<length probs.
       risk ! i = float64 (1 - float64 (float64 (float64 (probs ! i) * minmax_scale fitted)
                                        + minmax_min fitted)) \<and>
       risk ! i \<le> 1 \<and>
       (probs ! i = Min (set probs) \<longrightarrow> risk ! i = 1)) \<and>
    (\<forall>i<length probs. \<forall>j<length probs. probs ! i \<le> probs ! j \<longrightarrow> risk ! j \<le> risk ! i)"
proof -
  from assms obtain fitted where f: "MinMaxScaler_fit probs = Inr fitted"
    "minmax_data_min fitted = float64 (Min (set probs))"
    "minmax_data_max fitted = float64 (Max (set probs))"
    "minmax_min fitted = - float64 (minmax_data_min fitted * minmax_scale fitted)"
    "0 \<le> minmax_scale fitted"
    and g: "minmax_data_range fitted = float64 (minmax_data_max fitted - minmax_data_min fitted)"
    "minmax_scale fitted = float64 (1 / (if minmax_data_range fitted < 10 * float64_eps then 1
                                         else minmax_data_range fitted))"
    "minmax_min fitted = float64 (0 - float64 (minmax_data_min fitted * minmax_scale fitted))"
    by (rule MinMaxScaler_fit_cases)
  define t where "t p = float64 (float64 (float64 p * minmax_scale fitted) + minmax_min fitted)"
    for p
  define risk where "risk = map (\<lambda>p. float64 (1 - t p)) probs"
  have run: "retention_risk probs = Inr risk"
    using assms f(1)
    by (simp add: retention_risk_def MinMaxScaler_fit_transform_def MinMaxScaler_transform_def
        bind_err_def o_def risk_def t_def)
  have tmono: "t p \<le> t q" if "p \<le> q" for p q
    unfolding t_def using f(5) that by (rule minmax_transform_mono)
  have tmin: "t (Min (set probs)) = 0"
    by (simp add: t_def f(4) f(2)[symmetric] float64_zero)
  have val: "risk ! i = float64 (1 - t (probs ! i))" if "i < length probs" for i
    using that by (simp add: risk_def)
  have le: "risk ! i \<le> 1" if "i < length probs" for i
  proof -
    have "Min (set probs) \<le> probs ! i" using that by simp
    from tmono[OF this] have "1 - t (probs ! i) \<le> 1" by (simp add: tmin)
    from float64_mono[OF this] show ?thesis by (simp add: val[OF that] float64_one)
  qed
  have top: "risk ! i = 1" if "i < length probs" "probs ! i = Min (set probs)" for i
    by (simp add: val[OF that(1)] that(2) tmin float64_one)
  have dec: "risk ! j \<le> risk ! i"
    if "i < length probs" "j < length probs" "probs ! i \<le> probs ! j" for i j
  proof -
    have "1 - t (probs ! j) \<le> 1 - t (probs ! i)" using tmono[OF that(3)] by simp
    from float64_mono[OF this] show ?thesis by (simp add: val that)
  qed
  have len: "length risk = length probs" by (simp add: risk_def)
  from val le top have rows: "\<forall>i<length probs.
       risk ! i = float64 (1 - float64 (float64 (float64 (probs ! i) * minmax_scale fitted)
                                        + minmax_min fitted)) \<and>
       risk ! i \<le> 1 \<and>
       (probs ! i = Min (set probs) \<longrightarrow> risk ! i = 1)"
    by (simp add: t_def)
  from dec have decr: "\<forall>i<length probs. \<forall>j<length probs. probs ! i \<le> probs ! j \<longrightarrow>
      risk ! j \<le> risk ! i"
    by simp
  from f(1) run len f(2,3) g rows decr show ?thesis
    by (intro exI[of _ fitted] exI[of _ risk] conjI)
qed


lemma retention_risk_constant:
  assumes "probs \<noteq> []" "\<forall>p\<in>set probs. p = c"
  shows "retention_risk probs = Inr (replicate (length probs) 1)"
proof -
  from retention_risk_properties[OF assms(1)] obtain risk where
    r: "retention_risk probs = Inr risk" "length risk = length probs"
    "\<forall>i<length probs. probs ! i = Min (set probs) \<longrightarrow> risk ! i = 1"
    by auto
  have "set probs = {c}" using assms by (cases probs) auto
  then have "Min (set probs) = c" by simp
  then have "risk ! i = 1" if "i < length probs" for i
    using r(3) assms(2) that by simp
  then have "risk = replicate (length probs) 1"
    using r(2) by (intro nth_equalityI) simp_all
  with r(1) show ?thesis by simp
qed

text \<open>
  The risk score of a concrete batch is evaluated one float64 operation at a time; the
  intermediate values are float64 numbers written as fractions.
\<close>

lemma retention_risk_eval:
  assumes "xs \<noteq> []"
    and "map float64 xs = X"
    and "Min (set X) = mn" and "Max (set X) = mx"
    and "float64 (mx - mn) = rng"
    and "float64 (1 / (if rng < 10 * float64_eps then 1 else rng)) = s"
    and "float64 (mn * s) = ms"
    and "float64 (0 - ms) = off"
    and "map (\<lambda>x. float64 (x * s)) X = ps"
    and "map (\<lambda>p. float64 (p + off)) ps = ts"
    and "map (\<lambda>v. float64 (1 - v)) ts = risk"
  shows "retention_risk xs = Inr risk"
proof -
  have fit: "MinMaxScaler_fit xs = Inr \<lparr>minmax_data_min = mn, minmax_data_max = mx,
      minmax_data_range = rng, minmax_scale = s, minmax_min = off\<rparr>"
    using assms(1) unfolding MinMaxScaler_fit_def Let_def assms(2) assms(3) assms(4) assms(5)
      assms(6) assms(7) assms(8) by simp
  have "map (\<lambda>x. float64 (1 - float64 (float64 (float64 x * s) + off))) xs = risk"
    unfolding assms(11)[symmetric] assms(10)[symmetric] assms(9)[symmetric] assms(2)[symmetric]
    by (simp add: o_def)
  then show ?thesis
    using assms(1)
    by (simp add: retention_risk_def MinMaxScaler_fit_transform_def MinMaxScaler_transform_def
        bind_err_def fit o_def)
qed

lemma retention_risk_demo:
  "retention_risk [9 / 10, 1 / 2, 1 / 10, 7 / 10, 3 / 10] = Inr [0, 1 / 2, 1, 1 / 4, 3 / 4]"
proof -
  have ne: "[9 / 10, 1 / 2, 1 / 10, 7 / 10, 3 / 10] \<noteq> ([] :: real list)" by simp
  have X: "map float64 [9 / 10, 1 / 2, 1 / 10, 7 / 10, 3 / 10] =
      [8106479329266893 / 9007199254740992,
       1 / 2,
       3602879701896397 / 36028797018963968,
       3152519739159347 / 4503599627370496,
       5404319552844595 / 18014398509481984]"
    by (simp add: float64_eval)
  have mn: "Min (set [8106479329266893 / 9007199254740992,
       1 / 2,
       3602879701896397 / 36028797018963968,
       3152519739159347 / 4503599627370496,
       5404319552844595 / 18014398509481984]) =
      (3602879701896397 / 36028797018963968 :: real)"
    by simp
  have mx: "Max (set [8106479329266893 / 9007199254740992,
       1 / 2,
       3602879701896397 / 36028797018963968,
       3152519739159347 / 4503599627370496,
       5404319552844595 / 18014398509481984]) =
      (8106479329266893 / 9007199254740992 :: real)"
    by simp
  have rng: "float64 ((8106479329266893 / 9007199254740992) - (3602879701896397 / 36028797018963968)) =
      3602879701896397 / 4503599627370496"
    by (simp add: float64_eval)
  have s: "float64 (1 / (if (3602879701896397 / 4503599627370496 :: real) < 10 * float64_eps then 1
                        else (3602879701896397 / 4503599627370496))) =
      5 / 4"
    by (simp add: float64_eval)
  have ms: "float64 ((3602879701896397 / 36028797018963968) * (5 / 4)) =
      1 / 8"
    by (simp add: float64_eval)
  have off: "float64 (0 - (1 / 8)) = - (1 / 8)"
    by (simp add: float64_eval)
  have ps: "map (\<lambda>x. float64 (x * (5 / 4)))
      [8106479329266893 / 9007199254740992,
       1 / 2,
       3602879701896397 / 36028797018963968,
       3152519739159347 / 4503599627370496,
       5404319552844595 / 18014398509481984] =
      [9 / 8, 5 / 8, 1 / 8, 7 / 8, 3 / 8]"
    by (simp add: float64_eval)
  have ts: "map (\<lambda>p. float64 (p + (- (1 / 8))))
      [9 / 8, 5 / 8, 1 / 8, 7 / 8, 3 / 8] =
      [1, 1 / 2, 0, 3 / 4, 1 / 4]"
    by (simp add: float64_eval)
  have risk: "map (\<lambda>v. float64 (1 - v)) [1, 1 / 2, 0, 3 / 4, 1 / 4] =
      [0, 1 / 2, 1, 1 / 4, 3 / 4]"
    by (simp add: float64_eval)
  from retention_risk_eval[OF ne X mn mx rng s ms off ps ts risk] show ?thesis by simp
qed


lemma retention_risk_three:
  "retention_risk [8 / 10, 2 / 10, 5 / 10] = Inr [0, 1, 1 / 2]"
proof -
  have ne: "[8 / 10, 2 / 10, 5 / 10] \<noteq> ([] :: real list)" by simp
  have X: "map float64 [8 / 10, 2 / 10, 5 / 10] =
      [3602879701896397 / 4503599627370496,
       3602879701896397 / 18014398509481984,
       1 / 2]"
    by (simp add: float64_eval)
  have mn: "Min (set [3602879701896397 / 4503599627370496,
       3602879701896397 / 18014398509481984,
       1 / 2]) =
      (3602879701896397 / 18014398509481984 :: real)"
    by simp
  have mx: "Max (set [3602879701896397 / 4503599627370496,
       3602879701896397 / 18014398509481984,
       1 / 2]) =
      (3602879701896397 / 4503599627370496 :: real)"
    by simp
  have rng: "float64 ((3602879701896397 / 4503599627370496) - (3602879701896397 / 18014398509481984)) =
      1351079888211149 / 2251799813685248"
    by (simp add: float64_eval)
  have s: "float64 (1 / (if (1351079888211149 / 2251799813685248 :: real) < 10 * float64_eps then 1
                        else (1351079888211149 / 2251799813685248))) =
      3752999689475413 / 2251799813685248"
    by (simp add: float64_eval)
  have ms: "float64 ((3602879701896397 / 18014398509481984) * (3752999689475413 / 2251799813685248)) =
      6004799503160661 / 18014398509481984"
    by (simp add: float64_eval)
  have off: "float64 (0 - (6004799503160661 / 18014398509481984)) = - (6004799503160661 / 18014398509481984)"
    by (simp add: float64_eval)
  have ps: "map (\<lambda>x. float64 (x * (3752999689475413 / 2251799813685248)))
      [3602879701896397 / 4503599627370496,
       3602879701896397 / 18014398509481984,
       1 / 2] =
      [6004799503160661 / 4503599627370496,
       6004799503160661 / 18014398509481984,
       3752999689475413 / 4503599627370496]"
    by (simp add: float64_eval)
  have ts: "map (\<lambda>p. float64 (p + (- (6004799503160661 / 18014398509481984))))
      [6004799503160661 / 4503599627370496,
       6004799503160661 / 18014398509481984,
       3752999689475413 / 4503599627370496] =
      [1, 0, 9007199254740991 / 18014398509481984]"
    by (simp add: float64_eval)
  have risk: "map (\<lambda>v. float64 (1 - v)) [1, 0, 9007199254740991 / 18014398509481984] =
      [0, 1, 1 / 2]"
    by (simp add: float64_eval)
  from retention_risk_eval[OF ne X mn mx rng s ms off ps ts risk] show ?thesis by simp
qed

lemma retention_risk_negative:
  "retention_risk [6 / 10, 9 / 10] = Inr [1, - (1 / 4503599627370496)]"
proof -
  have ne: "[6 / 10, 9 / 10] \<noteq> ([] :: real list)" by simp
  have X: "map float64 [6 / 10, 9 / 10] =
      [5404319552844595 / 9007199254740992, 8106479329266893 / 9007199254740992]"
    by (simp add: float64_eval)
  have mn: "Min (set [5404319552844595 / 9007199254740992, 8106479329266893 / 9007199254740992]) =
      (5404319552844595 / 9007199254740992 :: real)"
    by simp
  have mx: "Max (set [5404319552844595 / 9007199254740992, 8106479329266893 / 9007199254740992]) =
      (8106479329266893 / 9007199254740992 :: real)"
    by simp
  have rng: "float64 ((8106479329266893 / 9007199254740992) - (5404319552844595 / 9007199254740992)) =
      1351079888211149 / 4503599627370496"
    by (simp add: float64_eval)
  have s: "float64 (1 / (if (1351079888211149 / 4503599627370496 :: real) < 10 * float64_eps then 1
                        else (1351079888211149 / 4503599627370496))) =
      3752999689475413 / 1125899906842624"
    by (simp add: float64_eval)
  have ms: "float64 ((5404319552844595 / 9007199254740992) * (3752999689475413 / 1125899906842624)) =
      9007199254740991 / 4503599627370496"
    by (simp add: float64_eval)
  have off: "float64 (0 - (9007199254740991 / 4503599627370496)) = - (9007199254740991 / 4503599627370496)"
    by (simp add: float64_eval)
  have ps: "map (\<lambda>x. float64 (x * (3752999689475413 / 1125899906842624)))
      [5404319552844595 / 9007199254740992, 8106479329266893 / 9007199254740992] =
      [9007199254740991 / 4503599627370496, 3]"
    by (simp add: float64_eval)
  have ts: "map (\<lambda>p. float64 (p + (- (9007199254740991 / 4503599627370496))))
      [9007199254740991 / 4503599627370496, 3] =
      [0, 4503599627370497 / 4503599627370496]"
    by (simp add: float64_eval)
  have risk: "map (\<lambda>v. float64 (1 - v)) [0, 4503599627370497 / 4503599627370496] =
      [1, - (1 / 4503599627370496)]"
    by (simp add: float64_eval)
  from retention_risk_eval[OF ne X mn mx rng s ms off ps ts risk] show ?thesis by simp
qed

lemma retention_risk_collapse:
  "retention_risk [0, 1 / 10 ^ 17, 2 / 10 ^ 17] = Inr [1, 1, 1]"
proof -
  have ne: "[0, 1 / 10 ^ 17, 2 / 10 ^ 17] \<noteq> ([] :: real list)" by simp
  have X: "map float64 [0, 1 / 10 ^ 17, 2 / 10 ^ 17] =
      [0,
       6490371073168535 / 649037107316853453566312041152512,
       6490371073168535 / 324518553658426726783156020576256]"
    by (simp add: float64_eval)
  have mn: "Min (set [0,
       6490371073168535 / 649037107316853453566312041152512,
       6490371073168535 / 324518553658426726783156020576256]) =
      (0 :: real)"
    by simp
  have mx: "Max (set [0,
       6490371073168535 / 649037107316853453566312041152512,
       6490371073168535 / 324518553658426726783156020576256]) =
      (6490371073168535 / 324518553658426726783156020576256 :: real)"
    by simp
  have rng: "float64 ((6490371073168535 / 324518553658426726783156020576256) - 0) =
      6490371073168535 / 324518553658426726783156020576256"
    by (simp add: float64_eval)
  have s: "float64 (1 / (if (6490371073168535 / 324518553658426726783156020576256 :: real) < 10 * float64_eps then 1
                        else (6490371073168535 / 324518553658426726783156020576256))) =
      1"
    by (simp add: float64_eval)
  have ms: "float64 (0 * 1) =
      0"
    by (simp add: float64_eval)
  have off: "float64 (0 - 0) = 0"
    by (simp add: float64_eval)
  have ps: "map (\<lambda>x. float64 (x * 1))
      [0,
       6490371073168535 / 649037107316853453566312041152512,
       6490371073168535 / 324518553658426726783156020576256] =
      [0,
       6490371073168535 / 649037107316853453566312041152512,
       6490371073168535 / 324518553658426726783156020576256]"
    by (simp add: float64_eval)
  have ts: "map (\<lambda>p. float64 (p + 0))
      [0,
       6490371073168535 / 649037107316853453566312041152512,
       6490371073168535 / 324518553658426726783156020576256] =
      [0,
       6490371073168535 / 649037107316853453566312041152512,
       6490371073168535 / 324518553658426726783156020576256]"
    by (simp add: float64_eval)
  have risk: "map (\<lambda>v. float64 (1 - v)) [0,
       6490371073168535 / 649037107316853453566312041152512,
       6490371073168535 / 324518553658426726783156020576256] =
      [1, 1, 1]"
    by (simp add: float64_eval)
  from retention_risk_eval[OF ne X mn mx rng s ms off ps ts risk] show ?thesis by simp
qed

lemma retention_risk_rounding:
  "retention_risk [3 / 5, 9 / 10, 7 / 10, 4 / 5, 3 / 4] = Inr [1,
       - (1 / 4503599627370496),
       3002399751580331 / 4503599627370496,
       1501199875790165 / 4503599627370496,
       2251799813685247 / 4503599627370496]"
proof -
  have ne: "[3 / 5, 9 / 10, 7 / 10, 4 / 5, 3 / 4] \<noteq> ([] :: real list)" by simp
  have X: "map float64 [3 / 5, 9 / 10, 7 / 10, 4 / 5, 3 / 4] =
      [5404319552844595 / 9007199254740992,
       8106479329266893 / 9007199254740992,
       3152519739159347 / 4503599627370496,
       3602879701896397 / 4503599627370496,
       3 / 4]"
    by (simp add: float64_eval)
  have mn: "Min (set [5404319552844595 / 9007199254740992,
       8106479329266893 / 9007199254740992,
       3152519739159347 / 4503599627370496,
       3602879701896397 / 4503599627370496,
       3 / 4]) =
      (5404319552844595 / 9007199254740992 :: real)"
    by simp
  have mx: "Max (set [5404319552844595 / 9007199254740992,
       8106479329266893 / 9007199254740992,
       3152519739159347 / 4503599627370496,
       3602879701896397 / 4503599627370496,
       3 / 4]) =
      (8106479329266893 / 9007199254740992 :: real)"
    by simp
  have rng: "float64 ((8106479329266893 / 9007199254740992) - (5404319552844595 / 9007199254740992)) =
      1351079888211149 / 4503599627370496"
    by (simp add: float64_eval)
  have s: "float64 (1 / (if (1351079888211149 / 4503599627370496 :: real) < 10 * float64_eps then 1
                        else (1351079888211149 / 4503599627370496))) =
      3752999689475413 / 1125899906842624"
    by (simp add: float64_eval)
  have ms: "float64 ((5404319552844595 / 9007199254740992) * (3752999689475413 / 1125899906842624)) =
      9007199254740991 / 4503599627370496"
    by (simp add: float64_eval)
  have off: "float64 (0 - (9007199254740991 / 4503599627370496)) = - (9007199254740991 / 4503599627370496)"
    by (simp add: float64_eval)
  have ps: "map (\<lambda>x. float64 (x * (3752999689475413 / 1125899906842624)))
      [5404319552844595 / 9007199254740992,
       8106479329266893 / 9007199254740992,
       3152519739159347 / 4503599627370496,
       3602879701896397 / 4503599627370496,
       3 / 4] =
      [9007199254740991 / 4503599627370496,
       3,
       2627099782632789 / 1125899906842624,
       6004799503160661 / 2251799813685248,
       5 / 2]"
    by (simp add: float64_eval)
  have ts: "map (\<lambda>p. float64 (p + (- (9007199254740991 / 4503599627370496))))
      [9007199254740991 / 4503599627370496,
       3,
       2627099782632789 / 1125899906842624,
       6004799503160661 / 2251799813685248,
       5 / 2] =
      [0,
       4503599627370497 / 4503599627370496,
       1501199875790165 / 4503599627370496,
       3002399751580331 / 4503599627370496,
       2251799813685249 / 4503599627370496]"
    by (simp add: float64_eval)
  have risk: "map (\<lambda>v. float64 (1 - v)) [0,
       4503599627370497 / 4503599627370496,
       1501199875790165 / 4503599627370496,
       3002399751580331 / 4503599627370496,
       2251799813685249 / 4503599627370496] =
      [1,
       - (1 / 4503599627370496),
       3002399751580331 / 4503599627370496,
       1501199875790165 / 4503599627370496,
       2251799813685247 / 4503599627370496]"
    by (simp add: float64_eval)
  from retention_risk_eval[OF ne X mn mx rng s ms off ps ts risk] show ?thesis by simp
qed


section \<open>Evaluation on concrete inputs\<close>

text \<open>The defining equations that the simplifier unfolds to run the cells on an example.\<close>

lemmas table_eval = getitem_def setitem_def has_column_def columns_def bind_err_def nrows_def

lemmas cell2_eval = cell2_def load_def engineer_features_def engagement_step_def
  promotion_step_def overtime_step_def guarded_assign_def promotion_rate_def
  promotion_denominator_def

lemmas scaler_eval = fit_transform_def to_array_def StandardScaler_fit_def
  StandardScaler_transform_def check_array_def has_inf_def mat_rows_def column_mean_def
  column_scale_def finite_values_def standardize_def fsub_def

lemmas cell3_eval = cell3_def drop_columns_def scaler_eval

lemmas split_eval = train_test_split_def mat_take_rows_def take_rows_def

lemmas cell4_eval = cell4_def split_step_def balance_step_def split_eval

lemmas cell5_eval = cell5_def select_step_def split_sel_step_def balance_sel_step_def
  RFE_fit_def rfe_eliminate.simps count_true_def loc_columns_def select_columns_def
  clear_support_def argsort_def

lemmas cell8_eval = cell8_def setitem_array_def retention_risk_demo retention_risk_rounding
  risk_level_def
  quantile_def cut_def searchsorted_left_def

lemmas cell9_eval = cell9_def sort_values_def argsort_values_def

lemmas pipeline_eval = pipeline_def prepare_def preprocess_def demo_library_def
  rounding_library_def cell2_eval
  cell3_eval cell4_eval cell5_eval cell6_def cell7_def cell8_eval cell9_eval table_eval Let_def

lemma wide_unfold: "wide_table = (''Retained'', Float64 [Fin 1, Fin 1, Fin 0, Fin 1, Fin 0]) #
  [(''f'', Float64 [Fin 0, Fin 0, Fin 0, Fin 0, Fin 0]),
   (''ff'', Float64 [Fin 1, Fin 1, Fin 1, Fin 1, Fin 1]),
   (''fff'', Float64 [Fin 2, Fin 2, Fin 2, Fin 2, Fin 2]),
   (''ffff'', Float64 [Fin 3, Fin 3, Fin 3, Fin 3, Fin 3]),
   (''fffff'', Float64 [Fin 4, Fin 4, Fin 4, Fin 4, Fin 4]),
   (''ffffff'', Float64 [Fin 5, Fin 5, Fin 5, Fin 5, Fin 5]),
   (''fffffff'', Float64 [Fin 6, Fin 6, Fin 6, Fin 6, Fin 6]),
   (''ffffffff'', Float64 [Fin 7, Fin 7, Fin 7, Fin 7, Fin 7]),
   (''fffffffff'', Float64 [Fin 8, Fin 8, Fin 8, Fin 8, Fin 8]),
   (''ffffffffff'', Float64 [Fin 9, Fin 9, Fin 9, Fin 9, Fin 9]),
   (''fffffffffff'', Float64 [Fin 10, Fin 10, Fin 10, Fin 10, Fin 10]),
   (''ffffffffffff'', Float64 [Fin 11, Fin 11, Fin 11, Fin 11, Fin 11]),
   (''fffffffffffff'', Float64 [Fin 12, Fin 12, Fin 12, Fin 12, Fin 12]),
   (''ffffffffffffff'', Float64 [Fin 13, Fin 13, Fin 13, Fin 13, Fin 13]),
   (''fffffffffffffff'', Float64 [Fin 14, Fin 14, Fin 14, Fin 14, Fin 14]),
   (''ffffffffffffffff'', Float64 [Fin 15, Fin 15, Fin 15, Fin 15, Fin 15]),
   (''fffffffffffffffff'', Float64 [Fin 16, Fin 16, Fin 16, Fin 16, Fin 16]),
   (''ffffffffffffffffff'', Float64 [Fin 17, Fin 17, Fin 17, Fin 17, Fin 17]),
   (''fffffffffffffffffff'', Float64 [Fin 18, Fin 18, Fin 18, Fin 18, Fin 18]),
   (''ffffffffffffffffffff'', Float64 [Fin 19, Fin 19, Fin 19, Fin 19, Fin 19]),
   (''fffffffffffffffffffff'', Float64 [Fin 20, Fin 20, Fin 20, Fin 20, Fin 20])]"
  by code_simp

lemma map_sum_Inr_iff: "map_sum id f m = Inr v \<longleftrightarrow> (\<exists>s. m = Inr s \<and> f s = v)"
  by (cases m) auto

lemma bind_err_Inr_iff: "bind_err m f = Inr v \<longleftrightarrow> (\<exists>s. m = Inr s \<and> f s = Inr v)"
  by (cases m) (auto simp: bind_err_def)


section \<open>Verification: feature engineering (cell 2)\<close>

lemma has_column_iff: "has_column df c \<longleftrightarrow> map_of df c \<noteq> None"
  by (simp add: has_column_def columns_def map_of_eq_None_iff)

lemma has_column_setitem: "has_column (setitem df out v) c \<longleftrightarrow> c = out \<or> has_column df c"
  by (auto simp: has_column_iff setitem_def update_conv')

lemma map_of_setitem: "map_of (setitem df out v) c = (if c = out then Some v else map_of df c)"
  by (simp add: setitem_def update_conv')

lemma columns_setitem:
  "columns (setitem df out v) = (if has_column df out then columns df else columns df @ [out])"
  by (simp add: columns_def setitem_def update_keys has_column_def)

lemma setitem_same: "map_of df out = Some v \<Longrightarrow> setitem df out v = df"
  by (simp add: setitem_def update_triv)

lemma guarded_assign_skip:
  "\<not> (has_column df c1 \<and> has_column df c2) \<Longrightarrow> guarded_assign c1 c2 out f df = Inr df"
  by (auto simp: guarded_assign_def)

lemma guarded_assign_run:
  assumes "map_of df c1 = Some a" "map_of df c2 = Some b"
  shows "guarded_assign c1 c2 out f df = bind_err (f a b) (\<lambda>v. Inr (setitem df out v))"
  using assms by (simp add: guarded_assign_def bind_err_def getitem_def has_column_iff)

lemma guarded_assign_cases:
  assumes "guarded_assign c1 c2 out f df = Inr df'"
  shows "(\<not> (has_column df c1 \<and> has_column df c2) \<and> df' = df) \<or>
         (\<exists>a b v. map_of df c1 = Some a \<and> map_of df c2 = Some b \<and> f a b = Inr v \<and>
            df' = setitem df out v)"
proof (cases "has_column df c1 \<and> has_column df c2")
  case False
  with assms show ?thesis by (simp add: guarded_assign_skip)
next
  case True
  then obtain a b where ab: "map_of df c1 = Some a" "map_of df c2 = Some b"
    by (auto simp: has_column_iff)
  with assms have "bind_err (f a b) (\<lambda>v. Inr (setitem df out v)) = Inr df'"
    by (simp add: guarded_assign_run)
  then obtain v where "f a b = Inr v" "df' = setitem df out v"
    by (auto simp: bind_err_def split: sum.splits)
  with ab show ?thesis by blast
qed

lemma guarded_assign_stable:
  assumes "guarded_assign c1 c2 out f df = Inr df'" "out \<noteq> c1" "out \<noteq> c2"
  shows "guarded_assign c1 c2 out f df' = Inr df'"
  using guarded_assign_cases[OF assms(1)]
proof (elim disjE exE conjE)
  assume "\<not> (has_column df c1 \<and> has_column df c2)" "df' = df"
  then show ?thesis by (simp add: guarded_assign_skip)
next
  fix a b v
  assume h: "map_of df c1 = Some a" "map_of df c2 = Some b" "f a b = Inr v"
    "df' = setitem df out v"
  then have "map_of df' c1 = Some a" "map_of df' c2 = Some b" "map_of df' out = Some v"
    using assms(2,3) by (simp_all add: map_of_setitem)
  then show ?thesis
    using h(3) by (simp add: guarded_assign_run bind_err_def setitem_same)
qed

lemma guarded_assign_frame:
  assumes "guarded_assign d1 d2 out' g df = Inr df'" "c \<noteq> out'"
  shows "map_of df' c = map_of df c"
  using guarded_assign_cases[OF assms(1)] assms(2) by (auto simp: map_of_setitem)

lemma guarded_assign_preserved:
  assumes st: "guarded_assign c1 c2 out f df = Inr df"
    and other: "guarded_assign d1 d2 out' g df = Inr df'"
    and ne: "out' \<noteq> c1" "out' \<noteq> c2" "out' \<noteq> out"
  shows "guarded_assign c1 c2 out f df' = Inr df'"
proof -
  have fr: "map_of df' c1 = map_of df c1" "map_of df' c2 = map_of df c2"
    "map_of df' out = map_of df out"
    using guarded_assign_frame[OF other] ne by auto
  show ?thesis
    using guarded_assign_cases[OF st]
  proof (elim disjE exE conjE)
    assume "\<not> (has_column df c1 \<and> has_column df c2)"
    then have "\<not> (has_column df' c1 \<and> has_column df' c2)"
      by (simp add: has_column_iff fr)
    then show ?thesis by (simp add: guarded_assign_skip)
  next
    fix a b v
    assume h: "map_of df c1 = Some a" "map_of df c2 = Some b" "f a b = Inr v"
      "df = setitem df out v"
    have "map_of df out = Some v"
      using arg_cong[OF h(4), of "\<lambda>d. map_of d out"] by (simp add: map_of_setitem)
    then show ?thesis
      using h fr by (simp add: guarded_assign_run bind_err_def setitem_same)
  qed
qed


lemma guarded_assign_columns:
  assumes "guarded_assign c1 c2 out f df = Inr df'"
  shows "columns df' = columns df @
           (if has_column df c1 \<and> has_column df c2 \<and> \<not> has_column df out then [out] else [])"
  using guarded_assign_cases[OF assms]
  by (auto simp: columns_setitem has_column_iff)

lemma guarded_assign_has_out:
  assumes "guarded_assign c1 c2 out f df = Inr df'"
  shows "has_column df' out \<longleftrightarrow> has_column df out \<or> (has_column df c1 \<and> has_column df c2)"
proof -
  have h: "map_of df c1 = Some a \<Longrightarrow> has_column df c1" "map_of df c2 = Some b \<Longrightarrow> has_column df c2"
    for a b by (simp_all add: has_column_iff)
  show ?thesis
    using guarded_assign_cases[OF assms] h by (auto simp: has_column_setitem)
qed

lemma guarded_assign_has_other:
  assumes "guarded_assign c1 c2 out f df = Inr df'" "c \<noteq> out"
  shows "has_column df' c \<longleftrightarrow> has_column df c"
  using guarded_assign_frame[OF assms] by (simp add: has_column_iff)

lemma engineer_features_steps:
  assumes "engineer_features df = Inr df'"
  obtains d1 d2 where "engagement_step df = Inr d1" "promotion_step d1 = Inr d2"
    "overtime_step d2 = Inr df'"
  using assms by (auto simp: engineer_features_def bind_err_def split: sum.splits)

lemma engineer_features_fixed:
  assumes "engineer_features df = Inr df'"
  shows "engineer_features df' = Inr df'"
proof -
  from assms obtain d1 d2 where
    s1: "guarded_assign ''JobSatisfaction'' ''WorkLifeBalance'' ''Engagement_Index'' mul_series df
           = Inr d1"
    and s2: "guarded_assign ''YearsSinceLastPromotion'' ''YearsAtCompany'' ''Promotion_Rate''
           promotion_rate d1 = Inr d2"
    and s3: "guarded_assign ''Doing_Overtime'' ''Laboratory_Technician''
           ''Overtime_SensitiveRole'' mul_series d2 = Inr df'"
    by (auto elim!: engineer_features_steps
        simp: engagement_step_def promotion_step_def overtime_step_def)
  have a1: "guarded_assign ''JobSatisfaction'' ''WorkLifeBalance'' ''Engagement_Index''
       mul_series d1 = Inr d1"
    by (rule guarded_assign_stable[OF s1]) simp_all
  have a2: "guarded_assign ''JobSatisfaction'' ''WorkLifeBalance'' ''Engagement_Index''
       mul_series d2 = Inr d2"
    by (rule guarded_assign_preserved[OF a1 s2]) simp_all
  have a3: "guarded_assign ''JobSatisfaction'' ''WorkLifeBalance'' ''Engagement_Index''
       mul_series df' = Inr df'"
    by (rule guarded_assign_preserved[OF a2 s3]) simp_all
  have b2: "guarded_assign ''YearsSinceLastPromotion'' ''YearsAtCompany'' ''Promotion_Rate''
       promotion_rate d2 = Inr d2"
    by (rule guarded_assign_stable[OF s2]) simp_all
  have b3: "guarded_assign ''YearsSinceLastPromotion'' ''YearsAtCompany'' ''Promotion_Rate''
       promotion_rate df' = Inr df'"
    by (rule guarded_assign_preserved[OF b2 s3]) simp_all
  have c3: "guarded_assign ''Doing_Overtime'' ''Laboratory_Technician''
       ''Overtime_SensitiveRole'' mul_series df' = Inr df'"
    by (rule guarded_assign_stable[OF s3]) simp_all
  show ?thesis
    by (simp add: engineer_features_def engagement_step_def promotion_step_def
        overtime_step_def a3 b3 c3 bind_err_def)
qed

lemma engineer_features_frame:
  assumes "engineer_features df = Inr df'"
    and "c \<noteq> ''Engagement_Index''" "c \<noteq> ''Promotion_Rate''" "c \<noteq> ''Overtime_SensitiveRole''"
  shows "map_of df' c = map_of df c"
proof -
  from assms(1) obtain d1 d2 where
    s: "engagement_step df = Inr d1" "promotion_step d1 = Inr d2" "overtime_step d2 = Inr df'"
    by (rule engineer_features_steps)
  have "map_of d1 c = map_of df c"
    using s(1) assms(2) unfolding engagement_step_def by (rule guarded_assign_frame)
  moreover have "map_of d2 c = map_of d1 c"
    using s(2) assms(3) unfolding promotion_step_def by (rule guarded_assign_frame)
  moreover have "map_of df' c = map_of d2 c"
    using s(3) assms(4) unfolding overtime_step_def by (rule guarded_assign_frame)
  ultimately show ?thesis by simp
qed

lemma engineer_features_skip:
  assumes "\<not> (has_column df ''JobSatisfaction'' \<and> has_column df ''WorkLifeBalance'')"
    and "\<not> (has_column df ''YearsSinceLastPromotion'' \<and> has_column df ''YearsAtCompany'')"
    and "\<not> (has_column df ''Doing_Overtime'' \<and> has_column df ''Laboratory_Technician'')"
  shows "engineer_features df = Inr df"
  using assms
  by (simp add: engineer_features_def engagement_step_def promotion_step_def
      overtime_step_def guarded_assign_skip bind_err_def)

lemmas engineer_eval = engineer_features_def engagement_step_def promotion_step_def
  overtime_step_def guarded_assign_def bind_err_def getitem_def setitem_def has_column_def
  columns_def promotion_rate_def promotion_denominator_def

lemma engineer_features_has_outputs:
  assumes "engineer_features df = Inr df'"
  shows "(has_column df' ''Engagement_Index'' \<longleftrightarrow> has_column df ''Engagement_Index'' \<or>
            (has_column df ''JobSatisfaction'' \<and> has_column df ''WorkLifeBalance''))"
    and "(has_column df' ''Promotion_Rate'' \<longleftrightarrow> has_column df ''Promotion_Rate'' \<or>
            (has_column df ''YearsSinceLastPromotion'' \<and> has_column df ''YearsAtCompany''))"
    and "(has_column df' ''Overtime_SensitiveRole'' \<longleftrightarrow>
            has_column df ''Overtime_SensitiveRole'' \<or>
            (has_column df ''Doing_Overtime'' \<and> has_column df ''Laboratory_Technician''))"
    and "columns df' = columns df @
           filter (\<lambda>out. \<not> has_column df out \<and> has_column df' out)
             [''Engagement_Index'', ''Promotion_Rate'', ''Overtime_SensitiveRole'']"
proof -
  from assms obtain d1 d2 where
    s: "engagement_step df = Inr d1" "promotion_step d1 = Inr d2" "overtime_step d2 = Inr df'"
    by (rule engineer_features_steps)
  note s1 = s(1)[unfolded engagement_step_def]
  note s2 = s(2)[unfolded promotion_step_def]
  note s3 = s(3)[unfolded overtime_step_def]
  have o1: "has_column d1 c \<longleftrightarrow> has_column df c" if "c \<noteq> ''Engagement_Index''" for c
    using guarded_assign_has_other[OF s1 that] .
  have o2: "has_column d2 c \<longleftrightarrow> has_column d1 c" if "c \<noteq> ''Promotion_Rate''" for c
    using guarded_assign_has_other[OF s2 that] .
  have o3: "has_column df' c \<longleftrightarrow> has_column d2 c" if "c \<noteq> ''Overtime_SensitiveRole''" for c
    using guarded_assign_has_other[OF s3 that] .
  show e: "(has_column df' ''Engagement_Index'' \<longleftrightarrow> has_column df ''Engagement_Index'' \<or>
            (has_column df ''JobSatisfaction'' \<and> has_column df ''WorkLifeBalance''))"
    using guarded_assign_has_out[OF s1] by (simp add: o2 o3)
  show p: "(has_column df' ''Promotion_Rate'' \<longleftrightarrow> has_column df ''Promotion_Rate'' \<or>
            (has_column df ''YearsSinceLastPromotion'' \<and> has_column df ''YearsAtCompany''))"
    using guarded_assign_has_out[OF s2] by (simp add: o1 o3)
  show ov: "(has_column df' ''Overtime_SensitiveRole'' \<longleftrightarrow>
            has_column df ''Overtime_SensitiveRole'' \<or>
            (has_column df ''Doing_Overtime'' \<and> has_column df ''Laboratory_Technician''))"
    using guarded_assign_has_out[OF s3] by (simp add: o1 o2)
  have "columns df' = ((columns df @
      (if has_column df ''JobSatisfaction'' \<and> has_column df ''WorkLifeBalance'' \<and>
          \<not> has_column df ''Engagement_Index'' then [''Engagement_Index''] else [])) @
      (if has_column df ''YearsSinceLastPromotion'' \<and> has_column df ''YearsAtCompany'' \<and>
          \<not> has_column df ''Promotion_Rate'' then [''Promotion_Rate''] else [])) @
      (if has_column df ''Doing_Overtime'' \<and> has_column df ''Laboratory_Technician'' \<and>
          \<not> has_column df ''Overtime_SensitiveRole'' then [''Overtime_SensitiveRole''] else [])"
    unfolding guarded_assign_columns[OF s3] guarded_assign_columns[OF s2]
      guarded_assign_columns[OF s1]
    by (simp add: o1 o2)
  then show "columns df' = columns df @
           filter (\<lambda>out. \<not> has_column df out \<and> has_column df' out)
             [''Engagement_Index'', ''Promotion_Rate'', ''Overtime_SensitiveRole'']"
    using e p ov by auto
qed

lemma engineer_features_skipped:
  assumes "engineer_features df = Inr df'"
  shows "\<not> (has_column df ''JobSatisfaction'' \<and> has_column df ''WorkLifeBalance'') \<Longrightarrow>
           map_of df' ''Engagement_Index'' = map_of df ''Engagement_Index''"
    and "\<not> (has_column df ''YearsSinceLastPromotion'' \<and> has_column df ''YearsAtCompany'') \<Longrightarrow>
           map_of df' ''Promotion_Rate'' = map_of df ''Promotion_Rate''"
    and "\<not> (has_column df ''Doing_Overtime'' \<and> has_column df ''Laboratory_Technician'') \<Longrightarrow>
           map_of df' ''Overtime_SensitiveRole'' = map_of df ''Overtime_SensitiveRole''"
proof -
  from assms obtain d1 d2 where
    s: "engagement_step df = Inr d1" "promotion_step d1 = Inr d2" "overtime_step d2 = Inr df'"
    by (rule engineer_features_steps)
  note s1 = s(1)[unfolded engagement_step_def]
  note s2 = s(2)[unfolded promotion_step_def]
  note s3 = s(3)[unfolded overtime_step_def]
  have o1: "has_column d1 c \<longleftrightarrow> has_column df c" if "c \<noteq> ''Engagement_Index''" for c
    using guarded_assign_has_other[OF s1 that] .
  have o2: "has_column d2 c \<longleftrightarrow> has_column d1 c" if "c \<noteq> ''Promotion_Rate''" for c
    using guarded_assign_has_other[OF s2 that] .
  have f1: "map_of d1 c = map_of df c" if "c \<noteq> ''Engagement_Index''" for c
    using guarded_assign_frame[OF s1 that] .
  have f2: "map_of d2 c = map_of d1 c" if "c \<noteq> ''Promotion_Rate''" for c
    using guarded_assign_frame[OF s2 that] .
  have f3: "map_of df' c = map_of d2 c" if "c \<noteq> ''Overtime_SensitiveRole''" for c
    using guarded_assign_frame[OF s3 that] .
  show "map_of df' ''Engagement_Index'' = map_of df ''Engagement_Index''"
    if "\<not> (has_column df ''JobSatisfaction'' \<and> has_column df ''WorkLifeBalance'')"
  proof -
    have "d1 = df" using s1 that by (simp add: guarded_assign_skip)
    then show ?thesis by (simp add: f2 f3)
  qed
  show "map_of df' ''Promotion_Rate'' = map_of df ''Promotion_Rate''"
    if "\<not> (has_column df ''YearsSinceLastPromotion'' \<and> has_column df ''YearsAtCompany'')"
  proof -
    have "d2 = d1" using s2 that by (simp add: guarded_assign_skip o1)
    then show ?thesis by (simp add: f1 f3)
  qed
  show "map_of df' ''Overtime_SensitiveRole'' = map_of df ''Overtime_SensitiveRole''"
    if "\<not> (has_column df ''Doing_Overtime'' \<and> has_column df ''Laboratory_Technician'')"
  proof -
    have "df' = d2" using s3 that by (simp add: guarded_assign_skip o1 o2)
    then show ?thesis by (simp add: f1 f2)
  qed
qed

lemma engineer_features_rerun:
  assumes "engineer_features df = Inr df'"
  shows "engineer_features df' = Inr df' \<and>
    (\<forall>c. c \<notin> {''Engagement_Index'', ''Promotion_Rate'', ''Overtime_SensitiveRole''} \<longrightarrow>
       map_of df' c = map_of df c) \<and>
    (has_column df' ''Engagement_Index'' \<longleftrightarrow> has_column df ''Engagement_Index'' \<or>
       (has_column df ''JobSatisfaction'' \<and> has_column df ''WorkLifeBalance'')) \<and>
    (has_column df' ''Promotion_Rate'' \<longleftrightarrow> has_column df ''Promotion_Rate'' \<or>
       (has_column df ''YearsSinceLastPromotion'' \<and> has_column df ''YearsAtCompany'')) \<and>
    (has_column df' ''Overtime_SensitiveRole'' \<longleftrightarrow> has_column df ''Overtime_SensitiveRole'' \<or>
       (has_column df ''Doing_Overtime'' \<and> has_column df ''Laboratory_Technician'')) \<and>
    (\<not> (has_column df ''JobSatisfaction'' \<and> has_column df ''WorkLifeBalance'') \<longrightarrow>
       map_of df' ''Engagement_Index'' = map_of df ''Engagement_Index'') \<and>
    (\<not> (has_column df ''YearsSinceLastPromotion'' \<and> has_column df ''YearsAtCompany'') \<longrightarrow>
       map_of df' ''Promotion_Rate'' = map_of df ''Promotion_Rate'') \<and>
    (\<not> (has_column df ''Doing_Overtime'' \<and> has_column df ''Laboratory_Technician'') \<longrightarrow>
       map_of df' ''Overtime_SensitiveRole'' = map_of df ''Overtime_SensitiveRole'') \<and>
    columns df' = columns df @
      filter (\<lambda>out. \<not> has_column df out \<and> has_column df' out)
        [''Engagement_Index'', ''Promotion_Rate'', ''Overtime_SensitiveRole'']"
proof (intro conjI allI impI)
  show "engineer_features df' = Inr df'"
    by (rule engineer_features_fixed[OF assms])
  show "map_of df' c = map_of df c"
    if "c \<notin> {''Engagement_Index'', ''Promotion_Rate'', ''Overtime_SensitiveRole''}" for c
    using that by (intro engineer_features_frame[OF assms]) auto
qed (use engineer_features_has_outputs[OF assms] engineer_features_skipped[OF assms]
    in \<open>simp_all (no_asm_simp)\<close>)

lemma mul_series_error: "mul_series a b = Inl e \<Longrightarrow> e = TypeError"
  by (cases a; cases b) auto

lemma promotion_rate_error: "promotion_rate a b = Inl e \<Longrightarrow> e = TypeError"
  by (cases a; cases b) (auto simp: promotion_rate_def promotion_denominator_def bind_err_def)

lemma guarded_assign_error:
  assumes "guarded_assign c1 c2 out f df = Inl e"
    and "\<And>a b e'. f a b = Inl e' \<Longrightarrow> e' = TypeError"
  shows "e = TypeError"
proof (cases "has_column df c1 \<and> has_column df c2")
  case False
  with assms(1) show ?thesis by (simp add: guarded_assign_skip)
next
  case True
  then obtain a b where ab: "map_of df c1 = Some a" "map_of df c2 = Some b"
    by (auto simp: has_column_iff)
  with assms(1) have "f a b = Inl e"
    by (auto simp: guarded_assign_run bind_err_def split: sum.splits)
  then show ?thesis by (rule assms(2))
qed

lemma engineer_features_error:
  assumes "engineer_features df = Inl e"
  shows "e = TypeError"
proof -
  note ga = guarded_assign_error[OF _ mul_series_error] guarded_assign_error[OF _ promotion_rate_error]
  from assms show ?thesis
    by (auto simp: engineer_features_def engagement_step_def promotion_step_def
        overtime_step_def bind_err_def split: sum.splits dest: ga)
qed

text \<open>
  Claim C6. The feature-engineering cell never fails on a missing column: its only error is
  the type error of arithmetic on a non-numeric source column. Whenever it succeeds on a
  table, running it again on its own result returns that result unchanged (the derived
  columns are overwritten with identical values). Every column other than the three derived
  ones keeps its values; a derived column is present afterwards exactly when it was present
  before or both of its source columns exist; a derived column whose sources are not both
  present is left as it was; and the columns of the result are the columns of the input
  followed by the newly derived ones.
\<close>

theorem feature_engineer_idempotent:
  "(\<forall>e. engineer_features df = Inl e \<longrightarrow> e = TypeError) \<and>
   (\<forall>df'. engineer_features df = Inr df' \<longrightarrow>
    engineer_features df' = Inr df' \<and>
     (\<forall>c. c \<notin> {''Engagement_Index'', ''Promotion_Rate'', ''Overtime_SensitiveRole''} \<longrightarrow>
        map_of df' c = map_of df c) \<and>
     (has_column df' ''Engagement_Index'' \<longleftrightarrow> has_column df ''Engagement_Index'' \<or>
        (has_column df ''JobSatisfaction'' \<and> has_column df ''WorkLifeBalance'')) \<and>
     (has_column df' ''Promotion_Rate'' \<longleftrightarrow> has_column df ''Promotion_Rate'' \<or>
        (has_column df ''YearsSinceLastPromotion'' \<and> has_column df ''YearsAtCompany'')) \<and>
     (has_column df' ''Overtime_SensitiveRole'' \<longleftrightarrow> has_column df ''Overtime_SensitiveRole'' \<or>
        (has_column df ''Doing_Overtime'' \<and> has_column df ''Laboratory_Technician'')) \<and>
     (\<not> (has_column df ''JobSatisfaction'' \<and> has_column df ''WorkLifeBalance'') \<longrightarrow>
        map_of df' ''Engagement_Index'' = map_of df ''Engagement_Index'') \<and>
     (\<not> (has_column df ''YearsSinceLastPromotion'' \<and> has_column df ''YearsAtCompany'') \<longrightarrow>
        map_of df' ''Promotion_Rate'' = map_of df ''Promotion_Rate'') \<and>
     (\<not> (has_column df ''Doing_Overtime'' \<and> has_column df ''Laboratory_Technician'') \<longrightarrow>
        map_of df' ''Overtime_SensitiveRole'' = map_of df ''Overtime_SensitiveRole'') \<and>
     columns df' = columns df @
       filter (\<lambda>out. \<not> has_column df out \<and> has_column df' out)
         [''Engagement_Index'', ''Promotion_Rate'', ''Overtime_SensitiveRole''])"
proof (rule conjI)
  show "\<forall>e. engineer_features df = Inl e \<longrightarrow> e = TypeError"
    by (intro allI impI) (rule engineer_features_error)
qed (intro allI impI, rule engineer_features_rerun)

theorem feature_engineer_idempotent_witness:
  "engineer_features
     [(''JobSatisfaction'', Float64 [Fin 2, Fin 4]), (''WorkLifeBalance'', Float64 [Fin 3, Fin 1]),
      (''Doing_Overtime'', Float64 [Fin 1, Fin 0])]
   = Inr [(''JobSatisfaction'', Float64 [Fin 2, Fin 4]), (''WorkLifeBalance'', Float64 [Fin 3, Fin 1]),
      (''Doing_Overtime'', Float64 [Fin 1, Fin 0]), (''Engagement_Index'', Float64 [Fin 6, Fin 4])] \<and>
   engineer_features
     [(''JobSatisfaction'', Float64 [Fin 2, Fin 4]), (''WorkLifeBalance'', Float64 [Fin 3, Fin 1]),
      (''Doing_Overtime'', Float64 [Fin 1, Fin 0]), (''Engagement_Index'', Float64 [Fin 6, Fin 4])]
   = Inr [(''JobSatisfaction'', Float64 [Fin 2, Fin 4]), (''WorkLifeBalance'', Float64 [Fin 3, Fin 1]),
      (''Doing_Overtime'', Float64 [Fin 1, Fin 0]), (''Engagement_Index'', Float64 [Fin 6, Fin 4])]"
proof -
  have run: "engineer_features
     [(''JobSatisfaction'', Float64 [Fin 2, Fin 4]), (''WorkLifeBalance'', Float64 [Fin 3, Fin 1]),
      (''Doing_Overtime'', Float64 [Fin 1, Fin 0])]
   = Inr [(''JobSatisfaction'', Float64 [Fin 2, Fin 4]), (''WorkLifeBalance'', Float64 [Fin 3, Fin 1]),
      (''Doing_Overtime'', Float64 [Fin 1, Fin 0]), (''Engagement_Index'', Float64 [Fin 6, Fin 4])]"
    by (simp add: engineer_eval)
  have "engineer_features
     [(''JobSatisfaction'', Float64 [Fin 2, Fin 4]), (''WorkLifeBalance'', Float64 [Fin 3, Fin 1]),
      (''Doing_Overtime'', Float64 [Fin 1, Fin 0]), (''Engagement_Index'', Float64 [Fin 6, Fin 4])]
   = Inr [(''JobSatisfaction'', Float64 [Fin 2, Fin 4]), (''WorkLifeBalance'', Float64 [Fin 3, Fin 1]),
      (''Doing_Overtime'', Float64 [Fin 1, Fin 0]), (''Engagement_Index'', Float64 [Fin 6, Fin 4])]"
    by (rule conjunct1[OF mp[OF spec[OF conjunct2[OF feature_engineer_idempotent]] run]])
  with run show ?thesis by simp
qed

lemma drop_columns_ignore:
  "drop_columns df labels Ignore = Inr (filter (\<lambda>(name, _). name \<notin> set labels) df)"
  by (simp add: drop_columns_def)

lemma columns_filter:
  "columns (filter (\<lambda>(name, _). P name) df) = filter P (columns df)"
  by (induction df) (auto simp: columns_def)

text \<open>
  Claim C8. On a table that has none of the six optional source columns the
  feature-engineering cell succeeds and returns the table unchanged, so no engineered column
  is added; and \<^verbatim>\<open>df.drop(columns=["Retained", "EmployeeNumber"], errors='ignore')\<close> never
  raises: it returns the table without those two columns, whether or not they were present.
\<close>

theorem missing_optional_columns_tolerated:
  assumes "\<not> has_column df ''JobSatisfaction''" "\<not> has_column df ''WorkLifeBalance''"
    "\<not> has_column df ''YearsSinceLastPromotion''" "\<not> has_column df ''YearsAtCompany''"
    "\<not> has_column df ''Doing_Overtime''" "\<not> has_column df ''Laboratory_Technician''"
  shows "engineer_features df = Inr df \<and>
    (\<exists>X. drop_columns df [''Retained'', ''EmployeeNumber''] Ignore = Inr X \<and>
       columns X = filter (\<lambda>c. c \<notin> {''Retained'', ''EmployeeNumber''}) (columns df) \<and>
       (\<forall>c. c \<notin> {''Retained'', ''EmployeeNumber''} \<longrightarrow> map_of X c = map_of df c))"
proof -
  have "engineer_features df = Inr df"
    using assms by (intro engineer_features_skip) simp_all
  moreover have "columns (filter (\<lambda>(name, _). name \<notin> set [''Retained'', ''EmployeeNumber'']) df)
      = filter (\<lambda>c. c \<notin> {''Retained'', ''EmployeeNumber''}) (columns df)"
    by (simp add: columns_filter)
  moreover have "map_of (filter (\<lambda>(name, _). name \<notin> set [''Retained'', ''EmployeeNumber'']) df) c
      = map_of df c" if "c \<notin> {''Retained'', ''EmployeeNumber''}" for c
    using that by (induction df) auto
  ultimately show ?thesis
    by (simp add: drop_columns_ignore)
qed

theorem missing_optional_columns_tolerated_witness:
  "engineer_features [(''Retained'', Float64 [Fin 1, Fin 0]), (''Age'', Float64 [Fin 30, Fin 41])]
     = Inr [(''Retained'', Float64 [Fin 1, Fin 0]), (''Age'', Float64 [Fin 30, Fin 41])] \<and>
   drop_columns [(''Retained'', Float64 [Fin 1, Fin 0]), (''Age'', Float64 [Fin 30, Fin 41])]
     [''Retained'', ''EmployeeNumber''] Ignore = Inr [(''Age'', Float64 [Fin 30, Fin 41])] \<and>
   drop_columns [(''Retained'', Float64 [Fin 1, Fin 0]), (''Age'', Float64 [Fin 30, Fin 41])]
     [''Retained'', ''EmployeeNumber''] Raise = Inl (KeyError [''EmployeeNumber''])"
proof -
  have "engineer_features [(''Retained'', Float64 [Fin 1, Fin 0]), (''Age'', Float64 [Fin 30, Fin 41])]
     = Inr [(''Retained'', Float64 [Fin 1, Fin 0]), (''Age'', Float64 [Fin 30, Fin 41])]"
    by (rule conjunct1[OF missing_optional_columns_tolerated])
      (simp_all add: has_column_def columns_def)
  then show ?thesis
    by (simp add: has_column_def columns_def drop_columns_def)
qed

lemma fadd_eq_zero_iff: "fadd y (Fin k) = Fin 0 \<longleftrightarrow> y = Fin (- k)"
proof (cases y)
  case (Fin a)
  have "a + k = 0 \<longleftrightarrow> a = - k" by linarith
  with Fin show ?thesis by simp
qed simp_all

lemma add_scalar_zero_iff:
  "Fin 0 \<in> set (map (\<lambda>x. fadd x (Fin k)) ys) \<longleftrightarrow> Fin (- k) \<in> set ys"
proof (induction ys)
  case Nil
  show ?case by simp
next
  case (Cons y ys)
  have "Fin 0 = fadd y (Fin k) \<longleftrightarrow> y = Fin (- k)"
    using fadd_eq_zero_iff[of y k] by (simp only: eq_commute)
  with Cons show ?case by (simp del: set_map) (metis)
qed

text \<open>
  Claim C9, as amended. When no value of the \<^verbatim>\<open>YearsAtCompany\<close> column equals \<open>-1\<close> (in
  particular when every tenure is non-negative), the denominator series
  \<^verbatim>\<open>df["YearsAtCompany"] + 1\<close> contains no zero, and the promotion rate is the element-wise
  quotient by that series.
\<close>

theorem promotion_rate_denominator_nonzero:
  assumes "Fin (- 1) \<notin> set ys"
  shows "\<exists>ds. promotion_denominator (Float64 ys) = Inr (Float64 ds) \<and> Fin 0 \<notin> set ds \<and>
    promotion_rate (Float64 xs) (Float64 ys) = Inr (Float64 (map2 fdiv xs ds))"
proof -
  have "Fin 0 \<notin> set (map (\<lambda>x. fadd x (Fin 1)) ys)"
    using assms by (simp only: add_scalar_zero_iff) simp
  then show ?thesis
    by (simp add: promotion_denominator_def promotion_rate_def bind_err_def del: set_map)
qed

theorem promotion_rate_denominator_nonzero_witness:
  "Fin (- 1) \<notin> set [Fin 0, Fin 3] \<and>
   promotion_rate (Float64 [Fin 0, Fin 2]) (Float64 [Fin 0, Fin 3])
     = Inr (Float64 [Fin 0, Fin (1 / 2)])"
proof -
  have h: "Fin (- 1) \<notin> set [Fin 0, Fin 3]" by simp
  from promotion_rate_denominator_nonzero[OF h, of "[Fin 0, Fin 2]"]
  show ?thesis by (auto simp: promotion_denominator_def)
qed

text \<open>
  The claim as stated, for every table that has the two columns, fails: a table with a tenure
  of \<open>-1\<close> has both columns, the denominator of that row is zero, and the cell stores an
  infinite promotion rate.
\<close>

theorem promotion_rate_zero_denominator_counterexample:
  "has_column [(''YearsSinceLastPromotion'', Float64 [Fin 1]), (''YearsAtCompany'', Float64 [Fin (- 1)])]
      ''YearsSinceLastPromotion'' \<and>
   has_column [(''YearsSinceLastPromotion'', Float64 [Fin 1]), (''YearsAtCompany'', Float64 [Fin (- 1)])]
      ''YearsAtCompany'' \<and>
   promotion_denominator (Float64 [Fin (- 1)]) = Inr (Float64 [Fin 0]) \<and>
   engineer_features
     [(''YearsSinceLastPromotion'', Float64 [Fin 1]), (''YearsAtCompany'', Float64 [Fin (- 1)])]
   = Inr [(''YearsSinceLastPromotion'', Float64 [Fin 1]), (''YearsAtCompany'', Float64 [Fin (- 1)]),
          (''Promotion_Rate'', Float64 [PInf])]"
  by (simp add: engineer_features_def engagement_step_def promotion_step_def
  overtime_step_def guarded_assign_def bind_err_def getitem_def setitem_def has_column_def
  columns_def promotion_rate_def promotion_denominator_def)

section \<open>Verification: risk score and risk level (cell 8)\<close>

text \<open>
  Claim C1, as amended. On every non-empty batch of stay probabilities (numbers between 0
  and 1) the min-max scaler is fitted on the batch itself (its minimum and maximum are those
  of the batch, as float64, its scale is one over their difference, or 1 when the difference
  is below \<open>10 * eps\<close>) and the risk score is computed, one per row, as one minus the
  scaled probability, each operation rounded to float64. Every score is at most 1, a row
  holding the lowest probability of the batch scores exactly 1, and a row with a larger or
  equal stay probability never has a larger score. The score is not bounded below by 0 and
  the decrease is not strict: rounding can take the score of the highest probability below
  0, and probabilities closer than the rounding unit get the same score.
\<close>

theorem retention_risk_batch_relative:
  assumes "probs \<noteq> []" and "\<forall>p\<in>set probs. 0 \<le> p \<and> p \<le> 1"
  shows "\<exists>fitted risk. MinMaxScaler_fit probs = Inr fitted \<and>
    retention_risk probs = Inr risk \<and> length risk = length probs \<and>
    minmax_data_min fitted = float64 (Min (set probs)) \<and>
    minmax_data_max fitted = float64 (Max (set probs)) \<and>
    minmax_data_range fitted = float64 (minmax_data_max fitted - minmax_data_min fitted) \<and>
    minmax_scale fitted = float64 (1 / (if minmax_data_range fitted < 10 * float64_eps then 1
                                         else minmax_data_range fitted)) \<and>
    minmax_min fitted = float64 (0 - float64 (minmax_data_min fitted * minmax_scale fitted)) \<and>
    (\<forall>i<length probs.
       risk ! i = float64 (1 - float64 (float64 (float64 (probs ! i) * minmax_scale fitted)
                                        + minmax_min fitted)) \<and>
       risk ! i \<le> 1 \<and>
       (probs ! i = Min (set probs) \<longrightarrow> risk ! i = 1)) \<and>
    (\<forall>i<length probs. \<forall>j<length probs. probs ! i \<le> probs ! j \<longrightarrow> risk ! j \<le> risk ! i)"
  using assms(1) by (rule retention_risk_properties)

theorem retention_risk_batch_relative_witness:
  "[8 / 10, 2 / 10, 5 / 10] \<noteq> ([] :: real list) \<and>
   retention_risk [8 / 10, 2 / 10, 5 / 10] = Inr [0, 1, 1 / 2] \<and>
   (\<exists>fitted. MinMaxScaler_fit [8 / 10, 2 / 10, 5 / 10] = Inr fitted \<and>
      minmax_data_min fitted = float64 (2 / 10) \<and> minmax_data_max fitted = float64 (8 / 10))"
proof -
  have ne: "[8 / 10, 2 / 10, 5 / 10] \<noteq> ([] :: real list)" by simp
  have pr: "\<forall>p\<in>set [8 / 10, 2 / 10, 5 / 10 :: real]. 0 \<le> p \<and> p \<le> 1" by simp
  from retention_risk_batch_relative[OF ne pr]
  obtain fitted risk where r: "MinMaxScaler_fit [8 / 10, 2 / 10, 5 / 10] = Inr fitted"
    "retention_risk [8 / 10, 2 / 10, 5 / 10] = Inr risk"
    "minmax_data_min fitted = float64 (Min (set [8 / 10, 2 / 10, 5 / 10]))"
    "minmax_data_max fitted = float64 (Max (set [8 / 10, 2 / 10, 5 / 10]))"
    by blast
  have "retention_risk [8 / 10, 2 / 10, 5 / 10] = Inr [0, 1, 1 / 2]"
    by (rule retention_risk_three)
  moreover have "minmax_data_min fitted = float64 (2 / 10)" using r(3) by simp
  moreover have "minmax_data_max fitted = float64 (8 / 10)" using r(4) by simp
  ultimately show ?thesis using ne r(1) by blast
qed

text \<open>
  The batch \<open>[0.6, 0.9]\<close> gets the scores \<open>1\<close> and \<open>-2^-52\<close>, a score below 0; the batch
  \<open>[0, 1e-17, 2e-17]\<close> of three different probabilities gets the score \<open>1\<close> three times.
\<close>

theorem retention_risk_rounding_counterexample:
  "retention_risk [6 / 10, 9 / 10] = Inr [1, - (1 / 2 ^ 52)] \<and>
   retention_risk [0, 1 / 10 ^ 17, 2 / 10 ^ 17] = Inr [1, 1, 1]"
proof -
  have "retention_risk [6 / 10, 9 / 10] = Inr [1, - (1 / 4503599627370496)]"
    by (rule retention_risk_negative)
  moreover have "(2 :: real) ^ 52 = 4503599627370496" by simp
  ultimately show ?thesis using retention_risk_collapse by simp
qed

lemma quantile_index:
  assumes "0 \<le> q" "q \<le> 1" "0 < n"
  shows "nat \<lfloor>real (n - 1) * q\<rfloor> < n"
proof -
  have "real (n - 1) * q \<le> real (n - 1) * 1"
    using assms(2) by (intro mult_left_mono) simp_all
  then have "\<lfloor>real (n - 1) * q\<rfloor> \<le> \<lfloor>real (n - 1)\<rfloor>"
    by (intro floor_mono) simp
  then have "nat \<lfloor>real (n - 1) * q\<rfloor> \<le> n - 1" by simp
  with assms(3) show ?thesis by simp
qed

lemma quantile_Fin:
  assumes "0 \<le> q" "q \<le> 1" "xs \<noteq> []"
  shows "\<exists>v. quantile xs q = Inr (Fin v)"
  using assms by (simp add: quantile_def Let_def)

lemma quantile_replicate:
  assumes "0 \<le> q" "q \<le> 1" "0 < n"
  shows "quantile (replicate n c) q = Inr (Fin c)"
proof -
  have s: "sort (replicate n c) = replicate n c"
    by (intro sort_key_id_if_sorted) (simp add: sorted_replicate)
  have lo: "nat \<lfloor>real (n - 1) * q\<rfloor> < n" by (rule quantile_index[OF assms])
  have hi: "min (nat \<lfloor>real (n - 1) * q\<rfloor> + 1) (n - 1) < n" using assms(3) by simp
  show ?thesis
    using assms lo hi by (simp add: quantile_def Let_def s del: sort_key_simps)
qed

lemma cut_risk_bins:
  "cut (map Fin risk) [NInf, Fin p50, Fin p90, PInf] [''Low Risk'', ''Moderate Risk'', ''High Risk'']
   = (if p90 < p50 then Inl (ValueError ''bins must increase monotonically.'')
      else if p50 = p90 then Inl (ValueError ''Bin edges must be unique'')
      else Inr (Category [''Low Risk'', ''Moderate Risk'', ''High Risk'']
             (map (\<lambda>r. Some (if r \<le> p50 then 0 else if r \<le> p90 then 1 else 2)) risk)))"
proof -
  have ids: "searchsorted_left [NInf, Fin p50, Fin p90, PInf] (Fin r)
      = 1 + (if p50 < r then 1 else 0) + (if p90 < r then 1 else 0)" for r
    by (simp add: searchsorted_left_def)
  show ?thesis
    by (auto simp: cut_def ids Let_def)
qed

lemma risk_level_empty: "risk_level [] = Inl (ValueError ''Bin edges must be unique'')"
  by (simp add: risk_level_def quantile_def bind_err_def cut_def)

lemma risk_level_cases:
  assumes "risk \<noteq> []"
  obtains p50 p90 where "quantile risk (50 / 100) = Inr (Fin p50)"
    "quantile risk (90 / 100) = Inr (Fin p90)"
    "risk_level risk =
      (if p90 < p50 then Inl (ValueError ''bins must increase monotonically.'')
       else if p50 = p90 then Inl (ValueError ''Bin edges must be unique'')
       else Inr (Category [''Low Risk'', ''Moderate Risk'', ''High Risk'']
              (map (\<lambda>r. Some (if r \<le> p50 then 0 else if r \<le> p90 then 1 else 2)) risk)))"
proof -
  obtain p50 where a: "quantile risk (50 / 100) = Inr (Fin p50)"
    using quantile_Fin[of "50 / 100" risk] assms by auto
  obtain p90 where b: "quantile risk (90 / 100) = Inr (Fin p90)"
    using quantile_Fin[of "90 / 100" risk] assms by auto
  show ?thesis
    by (rule that[OF a b]) (simp only: risk_level_def a b bind_err_def sum.case cut_risk_bins)
qed




lemma nrows_setitem:
  assumes "col_length v = nrows df"
  shows "nrows (setitem df c v) = nrows df"
  using assms by (cases df) (auto simp: nrows_def setitem_def)

lemma setitem_array_ok:
  assumes "col_length v = nrows df"
  shows "setitem_array df c v = Inr (setitem df c v)"
  using assms by (simp add: setitem_array_def)

lemma risk_level_constant:
  assumes "0 < n"
  shows "risk_level (replicate n c) = Inl (ValueError ''Bin edges must be unique'')"
proof -
  have ne: "replicate n c \<noteq> []" using assms by simp
  have a: "quantile (replicate n c) (50 / 100) = Inr (Fin c)"
    using assms by (intro quantile_replicate) simp_all
  have b: "quantile (replicate n c) (90 / 100) = Inr (Fin c)"
    using assms by (intro quantile_replicate) simp_all
  show ?thesis
    unfolding risk_level_def a b bind_err_def sum.case cut_risk_bins by simp
qed

text \<open>
  Claim C10. When the classifier gives every row of a non-empty batch the same stay
  probability, every risk score is 1, the 50th and the 90th percentile of the risk score are
  both 1, the cut bins repeat an edge, and cell 8 raises instead of storing a risk level.
  Conversely the tiering step returns a result only when the two percentiles differ.
\<close>

theorem constant_batch_tiering_raises:
  assumes "calibrated_rf st (X_scaled_selected st) = Inr probs"
    and "probs \<noteq> []" and "\<forall>p\<in>set probs. p = c"
    and "length probs = nrows (df_frame st)"
  shows "retention_risk probs = Inr (replicate (length probs) 1) \<and>
    quantile (replicate (length probs) 1) (50 / 100) = Inr (Fin 1) \<and>
    quantile (replicate (length probs) 1) (90 / 100) = Inr (Fin 1) \<and>
    risk_level (replicate (length probs) 1) = Inl (ValueError ''Bin edges must be unique'') \<and>
    cell8 st = Inl (ValueError ''Bin edges must be unique'') \<and>
    (\<forall>risk levels. risk_level risk = Inr levels \<longrightarrow>
       quantile risk (50 / 100) \<noteq> quantile risk (90 / 100))"
proof -
  let ?n = "length probs"
  have n: "0 < ?n" using assms(2) by simp
  have rr: "retention_risk probs = Inr (replicate ?n 1)"
    by (rule retention_risk_constant[OF assms(2,3)])
  have rl: "risk_level (replicate ?n 1) = Inl (ValueError ''Bin edges must be unique'')"
    by (rule risk_level_constant[OF n])
  have s1: "setitem_array (df_frame st) ''Predicted_Prob_Stay'' (Float64 (map Fin probs))
      = Inr (setitem (df_frame st) ''Predicted_Prob_Stay'' (Float64 (map Fin probs)))"
    by (rule setitem_array_ok) (simp add: assms(4))
  have s2: "setitem_array (setitem (df_frame st) ''Predicted_Prob_Stay'' (Float64 (map Fin probs)))
        ''Retention_Risk'' (Float64 (map Fin (replicate ?n 1)))
      = Inr (setitem (setitem (df_frame st) ''Predicted_Prob_Stay'' (Float64 (map Fin probs)))
        ''Retention_Risk'' (Float64 (map Fin (replicate ?n 1))))"
    by (rule setitem_array_ok) (simp add: nrows_setitem assms(4))
  have c8: "cell8 st = Inl (ValueError ''Bin edges must be unique'')"
    unfolding cell8_def assms(1) bind_err_def sum.case s1 rr s2 rl ..
  have q: "quantile (replicate ?n 1) (50 / 100) = Inr (Fin 1)"
    "quantile (replicate ?n 1) (90 / 100) = Inr (Fin 1)"
    using n by (simp_all add: quantile_replicate)
  have only: "quantile risk (50 / 100) \<noteq> quantile risk (90 / 100)"
    if "risk_level risk = Inr levels" for risk levels
  proof (cases "risk = []")
    case True
    with that show ?thesis by (simp add: risk_level_empty)
  next
    case False
    then obtain p50 p90 where "quantile risk (50 / 100) = Inr (Fin p50)"
      "quantile risk (90 / 100) = Inr (Fin p90)"
      "risk_level risk =
        (if p90 < p50 then Inl (ValueError ''bins must increase monotonically.'')
         else if p50 = p90 then Inl (ValueError ''Bin edges must be unique'')
         else Inr (Category [''Low Risk'', ''Moderate Risk'', ''High Risk'']
              (map (\<lambda>r. Some (if r \<le> p50 then 0 else if r \<le> p90 then 1 else 2)) risk)))"
      by (rule risk_level_cases)
    with that show ?thesis by (auto split: if_splits)
  qed
  from rr rl c8 q only show ?thesis by blast
qed

theorem constant_batch_tiering_raises_witness:
  "cell8 ((load [(''Retained'', Float64 [Fin 1, Fin 0])])
           \<lparr>calibrated_rf := (\<lambda>M. Inr [7 / 10, 7 / 10])\<rparr>)
     = Inl (ValueError ''Bin edges must be unique'') \<and>
   retention_risk [7 / 10, 7 / 10] = Inr [1, 1]"
proof -
  let ?st = "(load [(''Retained'', Float64 [Fin 1, Fin 0])])
           \<lparr>calibrated_rf := (\<lambda>M. Inr [7 / 10, 7 / 10])\<rparr>"
  have a: "calibrated_rf ?st (X_scaled_selected ?st) = Inr [7 / 10, 7 / 10]" by simp
  have b: "[7 / 10, 7 / 10] \<noteq> ([] :: real list)" by simp
  have c: "\<forall>p\<in>set [7 / 10, 7 / 10 :: real]. p = 7 / 10" by simp
  have d: "length [7 / 10, 7 / 10 :: real] = nrows (df_frame ?st)"
    by (simp add: load_def nrows_def)
  from constant_batch_tiering_raises[OF a b c d]
  have "retention_risk [7 / 10, 7 / 10] = Inr (replicate (length [7 / 10, 7 / 10 :: real]) 1)"
    "cell8 ?st = Inl (ValueError ''Bin edges must be unique'')"
    by blast+
  then show ?thesis by (simp add: numeral_2_eq_2)
qed

section \<open>Verification: feature selection (cell 5)\<close>

lemma count_true_clear_ge: "count_true s \<le> Suc (count_true (s[j := False]))"
  unfolding count_true_def
proof (induction s arbitrary: j)
  case Nil
  show ?case by simp
next
  case (Cons b s)
  show ?case using Cons[of "j - 1"] by (cases j) simp_all
qed

lemma elimination_round_ge:
  "count_true support
     \<le> Suc (count_true (clear_support (map f (take (min 1 m) ranks)) support))"
proof (cases "take (min 1 m) ranks")
  case Nil
  have "clear_support (map f (take (min 1 m) ranks)) support = support"
    unfolding Nil by (simp add: clear_support_def)
  then show ?thesis by simp
next
  case (Cons r rs)
  have "length (take (min 1 m) ranks) \<le> 1" by simp
  with Cons have "rs = []" by simp
  have "clear_support (map f (take (min 1 m) ranks)) support = support[f r := False]"
    unfolding Cons \<open>rs = []\<close> by (simp add: clear_support_def)
  then show ?thesis by (simp add: count_true_clear_ge)
qed

lemma rfe_eliminate_count:
  assumes "rfe_eliminate est k X y support = Inr s" "k \<le> count_true support"
  shows "length s = length support \<and> count_true s = k"
  using assms
proof (induction est k X y support rule: rfe_eliminate.induct)
  case (1 est k X y support)
  show ?case
  proof (cases "k < count_true support")
    case False
    with "1.prems" show ?thesis by (simp add: rfe_eliminate.simps)
  next
    case True
    then obtain imp where e: "est (select_columns support X) y = Inr imp"
      using "1.prems"(1) by (subst (asm) rfe_eliminate.simps) (auto split: sum.splits)
    let ?next = "clear_support
                  (map (\<lambda>r. filter (\<lambda>i. support ! i) [0..<length support] ! r)
                     (take (min 1 (count_true support - k))
                        (argsort (map (\<lambda>j. (imp j)\<^sup>2) [0..<count_true support]))))
                  support"
    have rec: "rfe_eliminate est k X y ?next = Inr s"
      using "1.prems"(1) True e by (subst (asm) rfe_eliminate.simps) simp
    have "count_true support \<le> Suc (count_true ?next)" by (rule elimination_round_ge)
    with True have "k \<le> count_true ?next" by simp
    from "1.IH"[OF True e rec this] show ?thesis by simp
  qed
qed

lemma rfe_eliminate_total:
  assumes "\<forall>M. \<exists>imp. est M y = Inr imp"
  shows "\<exists>s. rfe_eliminate est k X y support = Inr s"
  using assms
proof (induction est k X y support rule: rfe_eliminate.induct)
  case (1 est k X y support)
  show ?case
  proof (cases "k < count_true support")
    case False
    then show ?thesis by (simp add: rfe_eliminate.simps)
  next
    case True
    obtain imp where e: "est (select_columns support X) y = Inr imp"
      using "1.prems" by blast
    from "1.IH"[OF True e "1.prems"] show ?thesis
      using True e by (subst rfe_eliminate.simps) simp
  qed
qed

lemma length_select_columns:
  "length s = length cols \<Longrightarrow> length (select_columns s cols) = count_true s"
proof (induction s arbitrary: cols)
  case Nil
  then show ?case by (simp add: select_columns_def count_true_def)
next
  case (Cons b s)
  then obtain c cs where "cols = c # cs" by (cases cols) auto
  with Cons show ?case by (simp add: select_columns_def count_true_def)
qed

lemma count_true_replicate: "count_true (replicate n True) = n"
  by (simp add: count_true_def)

text \<open>
  Claim C5. On a feature matrix with at least 20 columns, whenever the feature selector
  returns, its support mask has one entry per original column, exactly 20 of them true, and
  selects exactly 20 columns. It does return whenever the matrix has a row, there is one
  label per row, and the base estimator never raises.
\<close>

theorem feature_selector_retains_twenty:
  assumes "20 \<le> length X"
  shows "(\<forall>support. RFE_fit est 20 X y = Inr support \<longrightarrow>
            length support = length X \<and> count_true support = 20 \<and>
            length (select_columns support X) = 20) \<and>
         (0 < mat_rows X \<and> col_length y = mat_rows X \<and> (\<forall>M. \<exists>imp. est M y = Inr imp) \<longrightarrow>
            (\<exists>support. RFE_fit est 20 X y = Inr support))"
proof (rule conjI; intro allI impI)
  fix support
  assume "RFE_fit est 20 X y = Inr support"
  then have r: "rfe_eliminate est 20 X y (replicate (length X) True) = Inr support"
    by (simp add: RFE_fit_def split: if_splits)
  have "length support = length (replicate (length X) True) \<and> count_true support = 20"
    using assms by (intro rfe_eliminate_count[OF r]) (simp add: count_true_replicate)
  then show "length support = length X \<and> count_true support = 20 \<and>
            length (select_columns support X) = 20"
    by (simp add: length_select_columns)
next
  assume a: "0 < mat_rows X \<and> col_length y = mat_rows X \<and> (\<forall>M. \<exists>imp. est M y = Inr imp)"
  then obtain s where "rfe_eliminate est 20 X y (replicate (length X) True) = Inr s"
    using rfe_eliminate_total[of est y 20 X] by blast
  with a assms show "\<exists>support. RFE_fit est 20 X y = Inr support"
    by (simp add: RFE_fit_def)
qed


theorem feature_selector_retains_twenty_witness:
  "20 \<le> length (replicate 21 [Fin 0, Fin 1]) \<and>
   RFE_fit (\<lambda>M y. Inr (\<lambda>j. real j)) 20 (replicate 21 [Fin 0, Fin 1]) (Float64 [Fin 0, Fin 1])
     = Inr (False # replicate 20 True) \<and>
   count_true (False # replicate 20 True) = 20 \<and>
   length (select_columns (False # replicate 20 True) (replicate 21 [Fin 0, Fin 1])) = 20"
proof -
  have h: "20 \<le> length (replicate 21 [Fin 0, Fin 1])" by simp
  have run: "RFE_fit (\<lambda>M y. Inr (\<lambda>j. real j)) 20 (replicate 21 [Fin 0, Fin 1])
      (Float64 [Fin 0, Fin 1]) = Inr (False # replicate 20 True)"
    by code_simp
  from feature_selector_retains_twenty[OF h, of "\<lambda>M y. Inr (\<lambda>j. real j)" "Float64 [Fin 0, Fin 1]"]
    run h show ?thesis by blast
qed

section \<open>Verification: splitting and balancing (cells 4 and 5)\<close>

lemma split_step_cases:
  assumes "split_step lib st = Inr s1"
  obtains Xtr Xte ytr yte where
    "train_test_split (permutation lib) (X_scaled st) (y_series st) (2 / 10)
       = Inr (Xtr, Xte, ytr, yte)"
    "s1 = st\<lparr>X_train := Xtr, X_test := Xte, y_train := ytr, y_test := yte\<rparr>"
  using assms by (auto simp: split_step_def bind_err_def split: sum.splits)

lemma balance_step_cases:
  assumes "balance_step lib s1 = Inr s2"
  obtains Xr yr where "smote_fit_resample lib (X_train s1) (y_train s1) = Inr (Xr, yr)"
    "s2 = s1\<lparr>X_train_resampled := Xr, y_train_resampled := yr\<rparr>"
  using assms by (auto simp: balance_step_def bind_err_def split: sum.splits)

lemma split_sel_step_cases:
  assumes "split_sel_step lib st = Inr s1"
  obtains Xtr Xte ytr yte where
    "train_test_split (permutation lib) (X_scaled_selected st) (y_series st) (2 / 10)
       = Inr (Xtr, Xte, ytr, yte)"
    "s1 = st\<lparr>X_train_sel := Xtr, X_test_sel := Xte, y_train_sel := ytr, y_test_sel := yte\<rparr>"
  using assms by (auto simp: split_sel_step_def bind_err_def split: sum.splits)

lemma balance_sel_step_cases:
  assumes "balance_sel_step lib s1 = Inr s2"
  obtains Xr yr where "smote_fit_resample lib (X_train_sel s1) (y_train_sel s1) = Inr (Xr, yr)"
    "s2 = s1\<lparr>X_train_sel_res := Xr, y_train_sel_res := yr\<rparr>"
  using assms by (auto simp: balance_sel_step_def bind_err_def split: sum.splits)

lemma select_step_cases:
  assumes "select_step lib st = Inr s1"
  obtains support Xs sc T where
    "RFE_fit (forest_importances lib) 20 (X_scaled st) (y_series st) = Inr support"
    "loc_columns (X_frame st) support = Inr Xs"
    "fit_transform Xs = Inr (sc, T)"
    "s1 = st\<lparr>rfe_support := support, X_selected := Xs, scaler_std := Some sc,
               X_scaled_selected := T\<rparr>"
  using assms by (auto simp: select_step_def bind_err_def split: sum.splits)

lemma cell5_cases:
  assumes "cell5 lib st = Inr s"
  obtains s1 s2 where "select_step lib st = Inr s1" "split_sel_step lib s1 = Inr s2"
    "balance_sel_step lib s2 = Inr s"
  using assms by (auto simp: cell5_def bind_err_def split: sum.splits)

lemma cell4_cases:
  assumes "cell4 lib st = Inr s"
  obtains s1 where "split_step lib st = Inr s1" "balance_step lib s1 = Inr s"
  using assms by (auto simp: cell4_def bind_err_def split: sum.splits)

lemma take_rows_length:
  "take_rows idx xs = Inr ys \<Longrightarrow> length ys = length idx"
  by (auto simp: take_rows_def split: if_splits)

lemma col_take_rows_length:
  "col_take_rows idx c = Inr c' \<Longrightarrow> col_length c' = length idx"
  by (cases c) (auto simp: bind_err_def take_rows_length split: sum.splits)

lemma train_test_split_sizes:
  assumes "train_test_split perm X y t = Inr (Xtr, Xte, ytr, yte)"
    and "length (perm (mat_rows X)) = mat_rows X"
  shows "col_length yte = nat \<lceil>t * real (mat_rows X)\<rceil> \<and>
         col_length ytr = mat_rows X - nat \<lceil>t * real (mat_rows X)\<rceil>"
proof -
  let ?n = "mat_rows X"
  let ?k = "nat \<lceil>t * real ?n\<rceil>"
  from assms(1) have ne: "?n - ?k \<noteq> 0"
    by (auto simp: train_test_split_def Let_def split: if_splits)
  from assms(1) have
    "col_take_rows (take (?n - ?k) (drop ?k (perm ?n))) y = Inr ytr"
    "col_take_rows (take ?k (perm ?n)) y = Inr yte"
    by (auto simp: train_test_split_def Let_def bind_err_def split: if_splits sum.splits)
  then have "col_length ytr = length (take (?n - ?k) (drop ?k (perm ?n)))"
    "col_length yte = length (take ?k (perm ?n))"
    by (simp_all only: col_take_rows_length)
  with ne assms(2) show ?thesis by simp
qed

text \<open>
  Claim C4. The resampler is called on the training partition only and its result is stored
  in variables of its own, so after balancing the test partition (its rows and its labels,
  hence its row count and label distribution) is exactly what the split produced. This holds
  for the split of cell 4 and for the split of the selected features in cell 5, and cell 5
  leaves the test partition of cell 4 untouched. When the shuffled order has one entry per
  row, the test partition has \<open>ceil(0.2 * n)\<close> of the \<open>n\<close> rows and the training
  partition the remaining ones.
\<close>

theorem balancer_leaves_test_partition:
  "(\<forall>s1 s2. split_step lib st = Inr s1 \<and> balance_step lib s1 = Inr s2 \<longrightarrow>
      X_test s2 = X_test s1 \<and> y_test s2 = y_test s1 \<and>
      mat_rows (X_test s2) = mat_rows (X_test s1) \<and>
      col_length (y_test s2) = col_length (y_test s1) \<and>
      smote_fit_resample lib (X_train s1) (y_train s1)
        = Inr (X_train_resampled s2, y_train_resampled s2)) \<and>
   (\<forall>s1 s2. split_sel_step lib st = Inr s1 \<and> balance_sel_step lib s1 = Inr s2 \<longrightarrow>
      X_test_sel s2 = X_test_sel s1 \<and> y_test_sel s2 = y_test_sel s1 \<and>
      mat_rows (X_test_sel s2) = mat_rows (X_test_sel s1) \<and>
      col_length (y_test_sel s2) = col_length (y_test_sel s1) \<and>
      smote_fit_resample lib (X_train_sel s1) (y_train_sel s1)
        = Inr (X_train_sel_res s2, y_train_sel_res s2)) \<and>
   (\<forall>s. cell5 lib st = Inr s \<longrightarrow> X_test s = X_test st \<and> y_test s = y_test st) \<and>
   (\<forall>s1. split_step lib st = Inr s1 \<and>
      length (permutation lib (mat_rows (X_scaled st))) = mat_rows (X_scaled st) \<longrightarrow>
      col_length (y_test s1) = nat \<lceil>(2 / 10) * real (mat_rows (X_scaled st))\<rceil> \<and>
      col_length (y_train s1)
        = mat_rows (X_scaled st) - nat \<lceil>(2 / 10) * real (mat_rows (X_scaled st))\<rceil>)"
proof (intro conjI allI impI)
  fix s1 s2
  assume "split_step lib st = Inr s1 \<and> balance_step lib s1 = Inr s2"
  then have b: "balance_step lib s1 = Inr s2" by simp
  show "X_test s2 = X_test s1" "y_test s2 = y_test s1"
    "mat_rows (X_test s2) = mat_rows (X_test s1)"
    "col_length (y_test s2) = col_length (y_test s1)"
    "smote_fit_resample lib (X_train s1) (y_train s1)
        = Inr (X_train_resampled s2, y_train_resampled s2)"
    by (rule balance_step_cases[OF b]; simp)+
next
  fix s1 s2
  assume "split_sel_step lib st = Inr s1 \<and> balance_sel_step lib s1 = Inr s2"
  then have b: "balance_sel_step lib s1 = Inr s2" by simp
  show "X_test_sel s2 = X_test_sel s1" "y_test_sel s2 = y_test_sel s1"
    "mat_rows (X_test_sel s2) = mat_rows (X_test_sel s1)"
    "col_length (y_test_sel s2) = col_length (y_test_sel s1)"
    "smote_fit_resample lib (X_train_sel s1) (y_train_sel s1)
        = Inr (X_train_sel_res s2, y_train_sel_res s2)"
    by (rule balance_sel_step_cases[OF b]; simp)+
next
  fix s
  assume "cell5 lib st = Inr s"
  then obtain s1 s2 where c: "select_step lib st = Inr s1" "split_sel_step lib s1 = Inr s2"
    "balance_sel_step lib s2 = Inr s"
    by (rule cell5_cases)
  have "X_test s1 = X_test st \<and> y_test s1 = y_test st"
    by (rule select_step_cases[OF c(1)]) simp
  moreover have "X_test s2 = X_test s1 \<and> y_test s2 = y_test s1"
    by (rule split_sel_step_cases[OF c(2)]) simp
  moreover have "X_test s = X_test s2 \<and> y_test s = y_test s2"
    by (rule balance_sel_step_cases[OF c(3)]) simp
  ultimately show "X_test s = X_test st" "y_test s = y_test st" by simp_all
next
  fix s1
  assume a: "split_step lib st = Inr s1 \<and>
      length (permutation lib (mat_rows (X_scaled st))) = mat_rows (X_scaled st)"
  then obtain Xtr Xte ytr yte where
    t: "train_test_split (permutation lib) (X_scaled st) (y_series st) (2 / 10)
       = Inr (Xtr, Xte, ytr, yte)"
    and s1: "s1 = st\<lparr>X_train := Xtr, X_test := Xte, y_train := ytr, y_test := yte\<rparr>"
    by (auto elim: split_step_cases)
  from train_test_split_sizes[OF t] a s1
  show "col_length (y_test s1) = nat \<lceil>(2 / 10) * real (mat_rows (X_scaled st))\<rceil>"
    "col_length (y_train s1)
        = mat_rows (X_scaled st) - nat \<lceil>(2 / 10) * real (mat_rows (X_scaled st))\<rceil>"
    by simp_all
qed

theorem balancer_leaves_test_partition_witness:
  "map_sum id (\<lambda>s. (X_test s, y_test s, X_train s, y_train s))
     (bind_err (preprocess demo_table) (split_step demo_library))
     = Inr ([[Fin 0], [Fin 0], [Fin 0]], Float64 [Fin 0],
            [[Fin 0, Fin 0, Fin 0, Fin 0], [Fin 0, Fin 0, Fin 0, Fin 0],
             [Fin 0, Fin 0, Fin 0, Fin 0]], Float64 [Fin 1, Fin 0, Fin 1, Fin 1]) \<and>
   map_sum id (\<lambda>s. (X_test s, y_test s))
     (bind_err (preprocess demo_table) (cell4 demo_library))
     = Inr ([[Fin 0], [Fin 0], [Fin 0]], Float64 [Fin 0]) \<and>
   map_sum id (\<lambda>s. (X_test s, y_test s, X_test_sel s, y_test_sel s))
     (prepare demo_library demo_table)
     = Inr ([[Fin 0], [Fin 0], [Fin 0]], Float64 [Fin 0],
            [[Fin 0], [Fin 0], [Fin 0]], Float64 [Fin 0])"
proof -
  have e1: "map_sum id (\<lambda>s. (X_test s, y_test s, X_train s, y_train s))
     (bind_err (preprocess demo_table) (split_step demo_library))
     = Inr ([[Fin 0], [Fin 0], [Fin 0]], Float64 [Fin 0],
            [[Fin 0, Fin 0, Fin 0, Fin 0], [Fin 0, Fin 0, Fin 0, Fin 0],
             [Fin 0, Fin 0, Fin 0, Fin 0]], Float64 [Fin 1, Fin 0, Fin 1, Fin 1])"
    by (simp add: pipeline_eval demo_table_def)
  then obtain s3 s1 where s: "preprocess demo_table = Inr s3"
    "split_step demo_library s3 = Inr s1"
    "X_test s1 = [[Fin 0], [Fin 0], [Fin 0]]" "y_test s1 = Float64 [Fin 0]"
    unfolding map_sum_Inr_iff bind_err_Inr_iff by auto
  obtain s2 where b: "balance_step demo_library s1 = Inr s2"
    by (simp add: balance_step_def demo_library_def bind_err_def)
  from balancer_leaves_test_partition[of demo_library s3] s(2) b
  have "X_test s2 = X_test s1" "y_test s2 = y_test s1" by blast+
  moreover have "cell4 demo_library s3 = Inr s2"
    by (simp add: cell4_def s(2) b bind_err_def)
  ultimately have e2: "map_sum id (\<lambda>s. (X_test s, y_test s))
     (bind_err (preprocess demo_table) (cell4 demo_library))
     = Inr ([[Fin 0], [Fin 0], [Fin 0]], Float64 [Fin 0])"
    by (simp add: s bind_err_def)
  have e3: "map_sum id (\<lambda>s. (X_test s, y_test s, X_test_sel s, y_test_sel s))
     (prepare demo_library demo_table)
     = Inr ([[Fin 0], [Fin 0], [Fin 0]], Float64 [Fin 0],
            [[Fin 0], [Fin 0], [Fin 0]], Float64 [Fin 0])"
    by (simp add: pipeline_eval demo_table_def)
  from e1 e2 e3 show ?thesis by simp
qed

section \<open>Verification: the cells of a run\<close>

lemma select_columns_simps [simp]:
  "select_columns [] xs = []"
  "select_columns ks [] = []"
  "select_columns (k # ks) (x # xs) = (if k then x # select_columns ks xs else select_columns ks xs)"
  by (simp_all add: select_columns_def)

lemma map_select_columns: "map h (select_columns keep xs) = select_columns keep (map h xs)"
proof (induction xs arbitrary: keep)
  case Nil
  show ?case by simp
next
  case (Cons x xs)
  then show ?case by (cases keep) simp_all
qed

lemma sequence_err_length: "sequence_err ms = Inr xs \<Longrightarrow> length xs = length ms"
proof (induction ms arbitrary: xs)
  case Nil
  then show ?case by simp
next
  case (Cons m ms)
  then show ?case by (auto simp: bind_err_def split: sum.splits)
qed

lemma sequence_err_select:
  assumes "sequence_err (map f xs) = Inr ys"
  shows "sequence_err (map f (select_columns keep xs)) = Inr (select_columns keep ys)"
  using assms
proof (induction xs arbitrary: keep ys)
  case Nil
  then show ?case by simp
next
  case (Cons x xs)
  from Cons.prems obtain z zs where z: "f x = Inr z" "sequence_err (map f xs) = Inr zs"
    "ys = z # zs"
    by (auto simp: bind_err_def split: sum.splits)
  show ?case
  proof (cases keep)
    case Nil
    then show ?thesis by simp
  next
    case (Cons k ks)
    with z Cons.IH[OF z(2), of ks] show ?thesis by (simp add: bind_err_def)
  qed
qed

lemma check_array_Inr: "check_array M = Inr A \<Longrightarrow> A = M"
  by (auto simp: check_array_def split: if_splits)

lemma zip_fitted: "zip M (zip (map f M) (map g M)) = map (\<lambda>c. (c, f c, g c)) M"
  by (induction M) simp_all

lemma fit_transform_cases:
  assumes "fit_transform X = Inr (sc, T)"
  obtains M where "to_array X = Inr M" "check_array M = Inr M"
    "sc = \<lparr>scaler_mean = map column_mean M, scaler_scale = map column_scale M\<rparr>"
    "T = map (\<lambda>col. standardize (column_mean col) (column_scale col) col) M"
    "StandardScaler_transform sc M = Inr T"
proof -
  from assms obtain M where M: "to_array X = Inr M"
    and r: "bind_err (StandardScaler_fit M)
              (\<lambda>sc. bind_err (StandardScaler_transform sc M) (\<lambda>T. Inr (sc, T))) = Inr (sc, T)"
    by (auto simp: fit_transform_def bind_err_Inr_iff)
  from r obtain sc0 where f: "StandardScaler_fit M = Inr sc0"
    and t: "StandardScaler_transform sc0 M = Inr T" and "sc0 = sc"
    by (auto simp: bind_err_Inr_iff)
  from f obtain A where A: "check_array M = Inr A"
    and sc0: "sc0 = \<lparr>scaler_mean = map column_mean A, scaler_scale = map column_scale A\<rparr>"
    by (auto simp: StandardScaler_fit_def bind_err_Inr_iff)
  have AM: "A = M" using A by (rule check_array_Inr)
  have "T = map (\<lambda>col. standardize (column_mean col) (column_scale col) col) M"
    using t by (auto simp: StandardScaler_transform_def A AM sc0 bind_err_def zip_fitted o_def)
  with M A AM sc0 \<open>sc0 = sc\<close> t show ?thesis by (intro that[of M]) simp_all
qed

text \<open>
  Standardization works column by column: fitting on a selection of the columns gives the
  selection of the fitted parameters and of the transformed columns.
\<close>

lemma fit_transform_select:
  assumes full: "fit_transform X = Inr (sc, T)"
    and sel: "fit_transform (select_columns keep X) = Inr (sc', T')"
  shows "scaler_mean sc' = select_columns keep (scaler_mean sc)"
    and "scaler_scale sc' = select_columns keep (scaler_scale sc)"
    and "T' = select_columns keep T"
proof -
  from full obtain M where M: "to_array X = Inr M"
    "sc = \<lparr>scaler_mean = map column_mean M, scaler_scale = map column_scale M\<rparr>"
    "T = map (\<lambda>col. standardize (column_mean col) (column_scale col) col) M"
    by (rule fit_transform_cases)
  from sel obtain M' where M': "to_array (select_columns keep X) = Inr M'"
    "sc' = \<lparr>scaler_mean = map column_mean M', scaler_scale = map column_scale M'\<rparr>"
    "T' = map (\<lambda>col. standardize (column_mean col) (column_scale col) col) M'"
    by (rule fit_transform_cases)
  have "to_array (select_columns keep X) = Inr (select_columns keep M)"
    using M(1) unfolding to_array_def by (rule sequence_err_select)
  with M'(1) have "M' = select_columns keep M" by simp
  with M M' show "scaler_mean sc' = select_columns keep (scaler_mean sc)"
    "scaler_scale sc' = select_columns keep (scaler_scale sc)"
    "T' = select_columns keep T"
    by (simp_all add: map_select_columns)
qed

lemma fit_transform_lengths:
  assumes "fit_transform X = Inr (sc, T)"
  shows "length (scaler_mean sc) = length X" "length (scaler_scale sc) = length X"
    "length T = length X"
proof -
  from assms obtain M where M: "to_array X = Inr M"
    "sc = \<lparr>scaler_mean = map column_mean M, scaler_scale = map column_scale M\<rparr>"
    "T = map (\<lambda>col. standardize (column_mean col) (column_scale col) col) M"
    by (rule fit_transform_cases)
  have "length M = length X"
    using sequence_err_length[OF M(1)[unfolded to_array_def]] by simp
  with M show "length (scaler_mean sc) = length X" "length (scaler_scale sc) = length X"
    "length T = length X" by simp_all
qed


lemma cell3_cases:
  assumes "cell3 st = Inr s"
  obtains X y sc T where
    "drop_columns (df_frame st) [''Retained'', ''EmployeeNumber''] Ignore = Inr X"
    "getitem (df_frame st) ''Retained'' = Inr y"
    "fit_transform X = Inr (sc, T)"
    "s = st\<lparr>X_frame := X, y_series := y, scaler_std := Some sc, X_scaled := T\<rparr>"
  using assms by (auto simp: cell3_def bind_err_Inr_iff)

lemma cell6_cases:
  assumes "cell6 lib st = Inr s"
  obtains clf where
    "fit_calibrated_forest lib (X_train_sel_res st) (y_train_sel_res st) = Inr clf"
    "s = st\<lparr>calibrated_rf := clf\<rparr>"
  using assms by (auto simp: cell6_def bind_err_Inr_iff)

lemma cell7_cases:
  assumes "cell7 lib st = Inr s"
  shows "s = st"
  using assms by (auto simp: cell7_def split: option.splits)

lemma setitem_array_cases:
  assumes "setitem_array df c v = Inr d"
  shows "d = setitem df c v" "col_length v = nrows df"
  using assms by (auto simp: setitem_array_def split: if_splits)

lemma cell8_cases:
  assumes "cell8 st = Inr s"
  obtains probs risk levels where
    "calibrated_rf st (X_scaled_selected st) = Inr probs"
    "length probs = nrows (df_frame st)"
    "retention_risk probs = Inr risk"
    "risk_level risk = Inr levels"
    "s = st\<lparr>df_frame :=
           setitem (setitem (setitem (df_frame st) ''Predicted_Prob_Stay''
                      (Float64 (map Fin probs)))
                    ''Retention_Risk'' (Float64 (map Fin risk)))
             ''Risk_Level'' levels\<rparr>"
proof -
  from assms obtain probs df1 risk df2 levels where
    h: "calibrated_rf st (X_scaled_selected st) = Inr probs"
    "setitem_array (df_frame st) ''Predicted_Prob_Stay'' (Float64 (map Fin probs)) = Inr df1"
    "retention_risk probs = Inr risk"
    "setitem_array df1 ''Retention_Risk'' (Float64 (map Fin risk)) = Inr df2"
    "risk_level risk = Inr levels"
    "s = st\<lparr>df_frame := setitem df2 ''Risk_Level'' levels\<rparr>"
    by (auto simp: cell8_def bind_err_Inr_iff)
  from setitem_array_cases[OF h(2)] setitem_array_cases[OF h(4)] h
  show ?thesis by (intro that[of probs risk levels]) simp_all
qed

lemma cell9_cases:
  assumes "cell9 st = Inr s"
  obtains res where "sort_values (df_frame st) ''Retention_Risk'' False = Inr res"
    "s = st\<lparr>df_sorted := res, output_file := Some res\<rparr>"
  using assms by (auto simp: cell9_def bind_err_Inr_iff)

lemma preprocess_cases:
  assumes "preprocess table = Inr s3"
  obtains s2 where "cell2 (load table) = Inr s2" "cell3 s2 = Inr s3"
  using assms by (auto simp: preprocess_def bind_err_Inr_iff)

lemma pipeline_cases:
  assumes "pipeline lib table = Inr s"
  obtains s3 s4 s5 s6 s8 where "preprocess table = Inr s3" "cell4 lib s3 = Inr s4"
    "cell5 lib s4 = Inr s5" "cell6 lib s5 = Inr s6" "cell7 lib s6 = Inr s6"
    "cell8 s6 = Inr s8" "cell9 s8 = Inr s"
proof -
  from assms obtain s3 s4 s5 s6 s7 s8 where h: "preprocess table = Inr s3"
    "cell4 lib s3 = Inr s4" "cell5 lib s4 = Inr s5" "cell6 lib s5 = Inr s6"
    "cell7 lib s6 = Inr s7" "cell8 s7 = Inr s8" "cell9 s8 = Inr s"
    by (auto simp: pipeline_def prepare_def bind_err_Inr_iff)
  have "s7 = s6" using h(5) by (rule cell7_cases)
  with h show ?thesis by (intro that[of s3 s4 s5 s6 s8]) simp_all
qed

section \<open>Verification: the fitted scaler (cells 3 and 5)\<close>

lemma loc_columns_cases:
  assumes "loc_columns X keep = Inr Xs"
  shows "Xs = select_columns keep X" "length keep = length X"
  using assms by (auto simp: loc_columns_def split: if_splits)

text \<open>
  Claim C3, as amended. In every run that reaches the export, the scaler object is fitted
  twice: by the preprocessing cell on all feature columns, and again by the selection cell on
  the selected columns of the same table with all its rows. The parameters in use at scoring
  time are those of the second fit. Because standardization works column by column on the
  same rows, the mean and scale of every retained column equal the ones of the first fit, the
  array that is scored is the first standardized array restricted to the selected columns,
  and it is the transform of all rows of the selected table under this one set of
  parameters.
\<close>

theorem scaler_refit_keeps_parameters:
  assumes "pipeline lib table = Inr s"
  shows "\<exists>s3 sc sc'. preprocess table = Inr s3 \<and>
     scaler_std s3 = Some sc \<and> scaler_std s = Some sc' \<and>
     length (scaler_mean sc) = length (X_frame s) \<and>
     length (rfe_support s) = length (X_frame s) \<and>
     X_selected s = select_columns (rfe_support s) (X_frame s) \<and>
     scaler_mean sc' = select_columns (rfe_support s) (scaler_mean sc) \<and>
     scaler_scale sc' = select_columns (rfe_support s) (scaler_scale sc) \<and>
     X_scaled_selected s = select_columns (rfe_support s) (X_scaled s3) \<and>
     (\<exists>A. to_array (X_selected s) = Inr A \<and>
        StandardScaler_transform sc' A = Inr (X_scaled_selected s)) \<and>
     (\<exists>probs. calibrated_rf s (X_scaled_selected s) = Inr probs \<and>
        getitem (df_frame s) ''Predicted_Prob_Stay'' = Inr (Float64 (map Fin probs)))"
proof -
  from assms obtain s3 s4 s5 s6 s8 where run: "preprocess table = Inr s3"
    "cell4 lib s3 = Inr s4" "cell5 lib s4 = Inr s5" "cell6 lib s5 = Inr s6"
    "cell8 s6 = Inr s8" "cell9 s8 = Inr s"
    by (rule pipeline_cases)
  from run(1) obtain s2 where "cell3 s2 = Inr s3" by (rule preprocess_cases)
  then obtain X y sc T where c3: "fit_transform X = Inr (sc, T)"
    "s3 = s2\<lparr>X_frame := X, y_series := y, scaler_std := Some sc, X_scaled := T\<rparr>"
    by (rule cell3_cases)
  from run(2) obtain s3a where c4: "split_step lib s3 = Inr s3a" "balance_step lib s3a = Inr s4"
    by (rule cell4_cases)
  have f4: "X_frame s4 = X"
    by (rule split_step_cases[OF c4(1)], rule balance_step_cases[OF c4(2)]) (simp add: c3(2))
  from run(3) obtain s4a s4b where c5: "select_step lib s4 = Inr s4a"
    "split_sel_step lib s4a = Inr s4b" "balance_sel_step lib s4b = Inr s5"
    by (rule cell5_cases)
  from c5(1) obtain support Xs sc' T' where sel:
    "loc_columns (X_frame s4) support = Inr Xs" "fit_transform Xs = Inr (sc', T')"
    "s4a = s4\<lparr>rfe_support := support, X_selected := Xs, scaler_std := Some sc',
               X_scaled_selected := T'\<rparr>"
    by (rule select_step_cases)
  have Xs: "Xs = select_columns support X" "length support = length X"
    using loc_columns_cases[OF sel(1)] by (simp_all add: f4)
  have f5: "rfe_support s5 = support" "X_selected s5 = Xs" "scaler_std s5 = Some sc'"
    "X_scaled_selected s5 = T'" "X_frame s5 = X"
    by (rule split_sel_step_cases[OF c5(2)], rule balance_sel_step_cases[OF c5(3)],
        simp add: sel(3) f4)+
  from run(5) obtain probs risk levels where c8:
    "calibrated_rf s6 (X_scaled_selected s6) = Inr probs"
    "s8 = s6\<lparr>df_frame :=
           setitem (setitem (setitem (df_frame s6) ''Predicted_Prob_Stay''
                      (Float64 (map Fin probs)))
                    ''Retention_Risk'' (Float64 (map Fin risk)))
             ''Risk_Level'' levels\<rparr>"
    by (rule cell8_cases)
  have f: "rfe_support s = support" "X_selected s = Xs" "scaler_std s = Some sc'"
    "X_scaled_selected s = T'" "X_frame s = X" "calibrated_rf s = calibrated_rf s6"
    "X_scaled_selected s6 = T'"
    "df_frame s = setitem (setitem (setitem (df_frame s6) ''Predicted_Prob_Stay''
                      (Float64 (map Fin probs)))
                    ''Retention_Risk'' (Float64 (map Fin risk)))
             ''Risk_Level'' levels"
    by (rule cell6_cases[OF run(4)], rule cell9_cases[OF run(6)], simp add: c8(2) f5)+
  have par: "scaler_mean sc' = select_columns support (scaler_mean sc)"
    "scaler_scale sc' = select_columns support (scaler_scale sc)"
    "T' = select_columns support T"
    using fit_transform_select[OF c3(1) sel(2)[unfolded Xs(1)]] by simp_all
  obtain A where A: "to_array Xs = Inr A" "StandardScaler_transform sc' A = Inr T'"
    by (rule fit_transform_cases[OF sel(2)])
  have pps: "getitem (df_frame s) ''Predicted_Prob_Stay'' = Inr (Float64 (map Fin probs))"
    by (simp add: f(8) getitem_def map_of_setitem)
  have s3f: "scaler_std s3 = Some sc" "X_scaled s3 = T" by (simp_all add: c3(2))
  show ?thesis
    using run(1) s3f f par A pps c8(1) Xs fit_transform_lengths(1)[OF c3(1)]
    by (intro exI[of _ s3] exI[of _ sc] exI[of _ sc']) auto
qed

text \<open>
  The claim as stated fails: on a table with 21 feature columns the fitted state of the
  scaler after preprocessing has 21 means and scales, and the state in use at scoring time,
  refitted on the 20 selected columns, has 20.
\<close>

theorem scaler_refit_counterexample:
  "map_sum id scaler_std (preprocess wide_table) =
     Inr (Some \<lparr>scaler_mean =
                  [Fin 0, Fin 1, Fin 2, Fin 3, Fin 4, Fin 5, Fin 6, Fin 7, Fin 8, Fin 9, Fin 10,
                   Fin 11, Fin 12, Fin 13, Fin 14, Fin 15, Fin 16, Fin 17, Fin 18, Fin 19, Fin 20],
                scaler_scale =
                  [Fin 1, Fin 1, Fin 1, Fin 1, Fin 1, Fin 1, Fin 1, Fin 1, Fin 1, Fin 1, Fin 1,
                   Fin 1, Fin 1, Fin 1, Fin 1, Fin 1, Fin 1, Fin 1, Fin 1, Fin 1, Fin 1]\<rparr>) \<and>
   map_sum id scaler_std (pipeline demo_library wide_table) =
     Inr (Some \<lparr>scaler_mean =
                  [Fin 1, Fin 2, Fin 3, Fin 4, Fin 5, Fin 6, Fin 7, Fin 8, Fin 9, Fin 10,
                   Fin 11, Fin 12, Fin 13, Fin 14, Fin 15, Fin 16, Fin 17, Fin 18, Fin 19, Fin 20],
                scaler_scale =
                  [Fin 1, Fin 1, Fin 1, Fin 1, Fin 1, Fin 1, Fin 1, Fin 1, Fin 1, Fin 1,
                   Fin 1, Fin 1, Fin 1, Fin 1, Fin 1, Fin 1, Fin 1, Fin 1, Fin 1, Fin 1]\<rparr>)"
  by (simp add: pipeline_eval wide_unfold)

theorem scaler_refit_keeps_parameters_witness:
  "map_sum id rfe_support (pipeline demo_library wide_table) = Inr (False # replicate 20 True) \<and>
   map_sum id (\<lambda>s. map_option scaler_mean (scaler_std s)) (preprocess wide_table) =
     Inr (Some (map (\<lambda>i. Fin (real i)) [0..<21])) \<and>
   map_sum id (\<lambda>s. map_option scaler_mean (scaler_std s)) (pipeline demo_library wide_table) =
     Inr (Some (select_columns (False # replicate 20 True) (map (\<lambda>i. Fin (real i)) [0..<21])))"
proof -
  have e1: "map_sum id rfe_support (pipeline demo_library wide_table)
      = Inr (False # replicate 20 True)"
    by (simp add: pipeline_eval wide_unfold eval_nat_numeral)
  have e2: "map_sum id (\<lambda>s. map_option scaler_mean (scaler_std s)) (preprocess wide_table) =
     Inr (Some (map (\<lambda>i. Fin (real i)) [0..<21]))"
    by (simp add: pipeline_eval wide_unfold upt_rec)
  from e1 obtain s where s: "pipeline demo_library wide_table = Inr s"
    "rfe_support s = False # replicate 20 True"
    unfolding map_sum_Inr_iff by auto
  from scaler_refit_keeps_parameters[OF s(1)] obtain s3 sc sc' where
    h: "preprocess wide_table = Inr s3" "scaler_std s3 = Some sc" "scaler_std s = Some sc'"
    "scaler_mean sc' = select_columns (rfe_support s) (scaler_mean sc)"
    by blast
  from e2 h(1,2) have "scaler_mean sc = map (\<lambda>i. Fin (real i)) [0..<21]"
    by simp
  with h(3,4) s have "map_sum id (\<lambda>s. map_option scaler_mean (scaler_std s))
      (pipeline demo_library wide_table) =
     Inr (Some (select_columns (False # replicate 20 True) (map (\<lambda>i. Fin (real i)) [0..<21])))"
    by simp
  with e1 e2 show ?thesis by simp
qed

section \<open>Verification: the exported table (cells 8 and 9)\<close>













lemma col_length_reorder [simp]: "col_length (reorder idx c) = length idx"
  by (cases c) simp_all












lemma reorder_Fin:
  assumes "\<forall>i\<in>set idx. i < length xs"
  shows "reorder idx (Float64 (map Fin xs)) = Float64 (map Fin (map (\<lambda>i. xs ! i) idx))"
  using assms by simp

lemma reorder_codes:
  assumes "\<forall>i\<in>set idx. i < length codes"
  shows "reorder idx (Category cats (map Some codes))
     = Category cats (map Some (map (\<lambda>i. codes ! i) idx))"
  using assms by simp





end
